theory Spec2Isabelle
  imports
    Complex_Main
    "HOL-Library.AList"
    "HOL-Library.Char_ord"
    "HOL-Library.List_Lexorder"
begin

section \<open>The adaptive policy engine of \<^verbatim>\<open>adaptive_rl_engine.py\<close>\<close>

text \<open>
  The class \<^verbatim>\<open>AdaptiveRLEngine\<close> is embedded with explicit state passing. Conventions:
  \<^item> a Python \<^verbatim>\<open>float\<close> is a \<^typ>\<open>real\<close>: arithmetic is exact, rounding is not modelled.
    The one non-number the engine can meet, the \<^verbatim>\<open>nan\<close> that \<^verbatim>\<open>np.mean\<close> returns on an
    empty list, is \<^term>\<open>None\<close> of \<^typ>\<open>real option\<close>;
  \<^item> a Python \<^verbatim>\<open>dict\<close> is an association list in insertion order, written to with
    \<^const>\<open>AList.update\<close> (an existing key keeps its place, a new key goes last);
  \<^item> a \<^verbatim>\<open>defaultdict\<close> inserts the default when a missing key is read, so reading one
    returns the value together with the dictionary after the read;
  \<^item> the clock, the random generator and the base classifier are inputs: the hour of the
    day, the time stamp, the two random draws and the base prediction are parameters;
  \<^item> the three files are a record \<open>disk\<close>; file operations are modelled where they succeed
    (the source logs an I/O exception and goes on);
  \<^item> a Python \<^verbatim>\<open>str\<close> is a list of code points below 256 (a \<^typ>\<open>char\<close> is its code point):
    \<^verbatim>\<open>lower()\<close> and \<^verbatim>\<open>split()\<close> are modelled for these; strings with other code points
    are outside the model;
  \<^item> a method returns a Python value to its caller, besides changing the state; the
    messages sent to the logger are not modelled.
\<close>

subsection \<open>Dictionaries\<close>

type_synonym ('k, 'v) dict = "('k \<times> 'v) list"

text \<open>\<^verbatim>\<open>d[k]\<close> on a \<^verbatim>\<open>defaultdict\<close> whose factory returns \<open>dflt\<close>.\<close>

definition dd_get :: "'v \<Rightarrow> ('k, 'v) dict \<Rightarrow> 'k \<Rightarrow> 'v \<times> ('k, 'v) dict" where
  "dd_get dflt d k =
     (case map_of d k of
        Some v \<Rightarrow> (v, d)
      | None \<Rightarrow> (dflt, d @ [(k, dflt)]))"

text \<open>
  \<^verbatim>\<open>t[s][a]\<close> on a \<^verbatim>\<open>defaultdict(lambda: defaultdict(...))\<close>: the outer read may insert an
  empty inner dictionary, the inner read may insert the default; the inner dictionary is a
  shared object, so its new content is what the outer one holds afterwards.
\<close>

definition dd2_get :: "'v \<Rightarrow> ('s, ('a, 'v) dict) dict \<Rightarrow> 's \<Rightarrow> 'a \<Rightarrow> 'v \<times> ('s, ('a, 'v) dict) dict" where
  "dd2_get dflt t s a =
     (case dd_get [] t s of (inner, t1) \<Rightarrow>
        (case dd_get dflt inner a of (v, inner1) \<Rightarrow> (v, AList.update s inner1 t1)))"

text \<open>\<^verbatim>\<open>t[s][a] = v\<close>: the outer read as above, then a plain store in the inner dictionary.\<close>

definition dd2_set :: "('s, ('a, 'v) dict) dict \<Rightarrow> 's \<Rightarrow> 'a \<Rightarrow> 'v \<Rightarrow> ('s, ('a, 'v) dict) dict" where
  "dd2_set t s a v =
     (case dd_get [] t s of (inner, t1) \<Rightarrow> AList.update s (AList.update a v inner) t1)"

text \<open>A read that inserts nothing: what \<^verbatim>\<open>t[s][a]\<close> would return, the table left alone.\<close>

definition peek2 :: "'v \<Rightarrow> ('s, ('a, 'v) dict) dict \<Rightarrow> 's \<Rightarrow> 'a \<Rightarrow> 'v" where
  "peek2 dflt t s a =
     (case map_of t s of
        None \<Rightarrow> dflt
      | Some inner \<Rightarrow> (case map_of inner a of None \<Rightarrow> dflt | Some v \<Rightarrow> v))"

subsection \<open>The engine, its interaction records and the files\<close>

text \<open>
  The dictionary that \<^verbatim>\<open>log_interaction\<close> builds. It never has the key
  \<^verbatim>\<open>"interaction_id"\<close> that \<^verbatim>\<open>record_feedback\<close> looks up with \<^verbatim>\<open>.get\<close>, so the field is
  optional and \<^term>\<open>None\<close> when the key is absent.
\<close>

record interaction =
  timestamp :: string
  command :: string
  intent :: string
  result :: string
  user_id :: string
  state :: string
  success :: "bool option"
  feedback_score :: "int option"
  interaction_id :: "string option"

record feedback_entry =
  fb_timestamp :: string
  fb_command :: string
  fb_intent :: string
  fb_rating :: int
  fb_user_id :: string
  fb_state :: string

text \<open>
  The attributes of the engine that the modelled methods read or write. The deque
  \<^verbatim>\<open>recent_interactions\<close> is a list, oldest first. Visit counts start at 0 and are only
  ever incremented, so they are naturals.
\<close>

record engine =
  learning_rate :: real
  epsilon :: real
  q_table :: "(string, (string, real) dict) dict"
  state_action_counts :: "(string, (string, nat) dict) dict"
  recent_interactions :: "interaction list"
  intent_success_rates :: "(string, bool list) dict"
  user_preferences :: "(string, (string, int list) dict) dict"

text \<open>The object that \<^verbatim>\<open>save_model\<close> pickles.\<close>

record model_data =
  md_q_table :: "(string, (string, real) dict) dict"
  md_state_action_counts :: "(string, (string, nat) dict) dict"
  md_intent_success_rates :: "(string, bool list) dict"
  md_user_preferences :: "(string, (string, int list) dict) dict"
  md_learning_rate :: real
  md_epsilon :: real

text \<open>
  The files: \<^verbatim>\<open>user_feedback.json\<close> and \<^verbatim>\<open>rl_model.pkl\<close> may not exist (\<^term>\<open>None\<close>);
  \<^verbatim>\<open>interactions.jsonl\<close> is opened for appending, so it is the list of its lines.
\<close>

record disk =
  feedback_file :: "feedback_entry list option"
  interactions_file :: "interaction list"
  model_file :: "model_data option"

subsection \<open>Reward and update\<close>

text \<open>\<^verbatim>\<open>xs[-n:]\<close> for a positive \<open>n\<close>.\<close>

definition last_n :: "nat \<Rightarrow> 'a list \<Rightarrow> 'a list" where
  "last_n n xs = drop (length xs - n) xs"

text \<open>\<^verbatim>\<open>np.mean\<close> of a list of booleans (\<^verbatim>\<open>True\<close> counts 1); \<^verbatim>\<open>nan\<close> on the empty list.\<close>

definition np_mean :: "bool list \<Rightarrow> real option" where
  "np_mean bs =
     (if bs = [] then None
      else Some (real (length (filter (\<lambda>b. b) bs)) / real (length bs)))"

text \<open>
  \<^verbatim>\<open>max(-1.0, min(1.0, total_reward))\<close>. Python's \<^verbatim>\<open>min\<close> and \<^verbatim>\<open>max\<close> keep their first
  argument unless the second compares strictly smaller (larger); every comparison with
  \<^verbatim>\<open>nan\<close> is false, so \<^verbatim>\<open>min(1.0, nan)\<close> is \<^verbatim>\<open>1.0\<close> and the whole expression is \<^verbatim>\<open>1.0\<close>.
\<close>

definition clamp_reward :: "real option \<Rightarrow> real" where
  "clamp_reward total_reward =
     (case total_reward of
        None \<Rightarrow> 1
      | Some x \<Rightarrow> max (- 1) (min 1 x))"

text \<open>
  \<^verbatim>\<open>calculate_reward\<close>. The success-rate bonus is added only when the intent is a key of
  \<^verbatim>\<open>intent_success_rates\<close>; reading the visit count goes through the \<^verbatim>\<open>defaultdict\<close>, so
  the engine comes back with the entry that the read may have inserted.
\<close>

definition calculate_reward :: "engine \<Rightarrow> interaction \<Rightarrow> real \<times> engine" where
  "calculate_reward eng it =
     (let base_reward =
            (case feedback_score it of
               None \<Rightarrow> 0
             | Some rating \<Rightarrow> (real_of_int rating - 3) / 2);
          with_bonus =
            (case map_of (intent_success_rates eng) (intent it) of
               None \<Rightarrow> Some base_reward
             | Some rates \<Rightarrow>
                 (case np_mean (last_n 10 rates) of
                    None \<Rightarrow> None
                  | Some success_rate \<Rightarrow> Some (base_reward + (success_rate - 1 / 2) * (2 / 10))))
      in (case dd2_get 0 (state_action_counts eng) (state it) (intent it) of
            (visit_count, counts1) \<Rightarrow>
              (let exploration_bonus = 1 / (1 + real visit_count) * (1 / 10);
                   total_reward = map_option (\<lambda>b. b + exploration_bonus) with_bonus
               in (clamp_reward total_reward, eng\<lparr>state_action_counts := counts1\<rparr>))))"

text \<open>
  The reward as a function of the three things \<^verbatim>\<open>calculate_reward\<close> reads: the feedback
  score, the history of the intent (\<^term>\<open>None\<close> when the intent is not a key) and the
  visit count. These four definitions are not a second model: lemma
  \<open>calculate_reward_value\<close> below proves that this is what \<^const>\<open>calculate_reward\<close> returns.
\<close>

definition base_reward_of :: "int option \<Rightarrow> real" where
  "base_reward_of score = (case score of None \<Rightarrow> 0 | Some rating \<Rightarrow> (real_of_int rating - 3) / 2)"

definition add_success_bonus :: "bool list option \<Rightarrow> real \<Rightarrow> real option" where
  "add_success_bonus history base =
     (case history of
        None \<Rightarrow> Some base
      | Some rates \<Rightarrow> map_option (\<lambda>m. base + (m - 1 / 2) * (2 / 10)) (np_mean (last_n 10 rates)))"

definition exploration_bonus_of :: "nat \<Rightarrow> real" where
  "exploration_bonus_of visits = 1 / (1 + real visits) * (1 / 10)"

definition reward_formula :: "int option \<Rightarrow> bool list option \<Rightarrow> nat \<Rightarrow> real" where
  "reward_formula score history visits =
     clamp_reward
       (map_option (\<lambda>b. b + exploration_bonus_of visits)
          (add_success_bonus history (base_reward_of score)))"

text \<open>
  The body of \<^verbatim>\<open>update_q_value\<close> after the reward is known: the episodic update of the
  stored value and the increment of the visit count.
\<close>

definition q_update :: "engine \<Rightarrow> string \<Rightarrow> string \<Rightarrow> real \<Rightarrow> engine" where
  "q_update eng s a reward =
     (case dd2_get 0 (q_table eng) s a of
        (current_q, q1) \<Rightarrow>
          (let new_q = current_q + learning_rate eng * (reward - current_q);
               q2 = dd2_set q1 s a new_q
           in (case dd2_get 0 (state_action_counts eng) s a of
                 (c, c1) \<Rightarrow> eng\<lparr>q_table := q2, state_action_counts := dd2_set c1 s a (c + 1)\<rparr>)))"

definition update_q_value :: "engine \<Rightarrow> interaction \<Rightarrow> engine" where
  "update_q_value eng it =
     (case calculate_reward eng it of
        (reward, eng1) \<Rightarrow> q_update eng1 (state it) (intent it) reward)"

text \<open>The update applied \<open>n\<close> times with the same state, action and reward.\<close>

definition repeat_update :: "nat \<Rightarrow> engine \<Rightarrow> string \<Rightarrow> string \<Rightarrow> real \<Rightarrow> engine" where
  "repeat_update n eng s a r = ((\<lambda>e. q_update e s a r) ^^ n) eng"

subsection \<open>State features\<close>

text \<open>
  The characters at which \<^verbatim>\<open>str.split()\<close> separates words: the code points below 256 for
  which \<^verbatim>\<open>str.isspace\<close> holds (tab to carriage return, the four separators \<open>0x1C\<close> to
  \<open>0x1F\<close>, the space, next line \<open>0x85\<close> and the no-break space \<open>0xA0\<close>).
\<close>

definition is_space :: "char \<Rightarrow> bool" where
  "is_space c =
     (c \<in> set [CHR '' '', CHR 0x09, CHR 0x0A, CHR 0x0B, CHR 0x0C, CHR 0x0D,
                CHR 0x1C, CHR 0x1D, CHR 0x1E, CHR 0x1F, CHR 0x85, CHR 0xA0])"

text \<open>The words of a string; the first argument is the word being read.\<close>

fun split_ws :: "string \<Rightarrow> string \<Rightarrow> string list" where
  "split_ws w [] = (if w = [] then [] else [w])"
| "split_ws w (c # cs) =
     (if is_space c then (if w = [] then split_ws [] cs else w # split_ws [] cs)
      else split_ws (w @ [c]) cs)"

definition py_split :: "string \<Rightarrow> string list" where
  "py_split s = split_ws [] s"

text \<open>
  \<^verbatim>\<open>str.lower()\<close> on a code point below 256: the upper-case letters are \<open>A\<close> to \<open>Z\<close> and
  \<open>0xC0\<close> to \<open>0xDE\<close> without the multiplication sign \<open>0xD7\<close>; each has its lower-case
  letter 32 places further.
\<close>

definition lower_char :: "char \<Rightarrow> char" where
  "lower_char c =
     (if (CHR ''A'' \<le> c \<and> c \<le> CHR ''Z'') \<or> (CHR 0xC0 \<le> c \<and> c \<le> CHR 0xDE \<and> c \<noteq> CHR 0xD7)
      then char_of (of_char c + (32 :: nat)) else c)"

definition py_lower :: "string \<Rightarrow> string" where
  "py_lower s = map lower_char s"

text \<open>\<^verbatim>\<open>word in text\<close>: the word occurs as a substring.\<close>

fun contains :: "string \<Rightarrow> string \<Rightarrow> bool" where
  "contains w [] = (w = [])"
| "contains w (c # cs) = (take (length w) (c # cs) = w \<or> contains w cs)"

definition any_word_in :: "string list \<Rightarrow> string \<Rightarrow> bool" where
  "any_word_in ws text = list_ex (\<lambda>w. contains w text) ws"

fun py_join :: "string \<Rightarrow> string list \<Rightarrow> string" where
  "py_join sep [] = []"
| "py_join sep [x] = x"
| "py_join sep (x # y # ys) = x @ sep @ py_join sep (y # ys)"

text \<open>The optional \<^verbatim>\<open>context\<close> dictionary, read with \<^verbatim>\<open>.get\<close> at its two keys.\<close>

record cmd_context =
  has_datetime :: bool
  has_recipients :: bool

text \<open>\<^verbatim>\<open>get_state_features\<close>; \<open>hour\<close> is \<^verbatim>\<open>datetime.now().hour\<close>.\<close>

definition get_state_features :: "nat \<Rightarrow> string \<Rightarrow> cmd_context option \<Rightarrow> string" where
  "get_state_features hour cmd ctx =
     (let cmd_len = length (py_split cmd);
          len_tag =
            (if cmd_len \<le> 3 then ''short'' else if cmd_len \<le> 7 then ''medium'' else ''long'');
          time_tag =
            (if 6 \<le> hour \<and> hour < 12 then ''morning''
             else if 12 \<le> hour \<and> hour < 18 then ''afternoon''
             else if 18 \<le> hour \<and> hour < 22 then ''evening''
             else ''night'');
          low = py_lower cmd;
          topic =
            (if any_word_in [''schedule'', ''meeting'', ''event''] low then [''calendar'']
             else if any_word_in [''email'', ''send'', ''mail''] low then [''email'']
             else if any_word_in [''search'', ''find'', ''google''] low then [''search'']
             else if any_word_in [''open'', ''run'', ''launch''] low then [''app'']
             else []);
          flags =
            (case ctx of
               None \<Rightarrow> []
             | Some c \<Rightarrow>
                 (if has_datetime c then [''time_specific''] else []) @
                 (if has_recipients c then [''multi_user''] else []))
      in py_join ''|'' (sort ([len_tag, time_tag] @ topic @ flags)))"

subsection \<open>The decision\<close>

definition possible_intents :: "string list" where
  "possible_intents =
     [''calendar_event'', ''send_email'', ''web_search'', ''launch_app'',
      ''rag_query'', ''file_manage'', ''calendar_list'', ''workflow_trigger'']"

text \<open>
  \<^verbatim>\<open>max(items, key=lambda x: x[1])\<close> on a non-empty sequence: the running maximum is
  replaced only by a strictly larger value, so the first maximal item wins.
\<close>

fun max_by_value :: "'a \<times> real \<Rightarrow> ('a \<times> real) list \<Rightarrow> 'a \<times> real" where
  "max_by_value best [] = best"
| "max_by_value best (x # xs) = max_by_value (if snd best < snd x then x else best) xs"

text \<open>
  The first half of \<^verbatim>\<open>get_enhanced_intent\<close>: the candidate of the learned policy. \<open>rnd\<close> is
  the draw of \<^verbatim>\<open>np.random.random()\<close>, \<open>pick\<close> decides \<^verbatim>\<open>np.random.choice\<close>. The read
  \<^verbatim>\<open>self.q_table[state]\<close> goes through the \<^verbatim>\<open>defaultdict\<close>.
\<close>

definition rl_prediction ::
    "engine \<Rightarrow> string \<Rightarrow> real \<Rightarrow> nat \<Rightarrow> string \<Rightarrow> real \<Rightarrow> (string \<times> real) \<times> engine" where
  "rl_prediction eng s rnd pick base_intent base_confidence =
     (case map_of (q_table eng) s of
        None \<Rightarrow> ((base_intent, base_confidence), eng)
      | Some _ \<Rightarrow>
          (case dd_get [] (q_table eng) s of
             (q_values, q1) \<Rightarrow>
               (if rnd < epsilon eng
                then ((possible_intents ! (pick mod length possible_intents), 5 / 10),
                      eng\<lparr>q_table := q1\<rparr>)
                else (case q_values of
                        [] \<Rightarrow> ((base_intent, base_confidence), eng\<lparr>q_table := q1\<rparr>)
                      | x # xs \<Rightarrow> ((fst (max_by_value x xs), 8 / 10), eng\<lparr>q_table := q1\<rparr>)))))"

text \<open>
  \<^verbatim>\<open>get_enhanced_intent\<close>; the pair \<open>base\<close> is what \<^verbatim>\<open>predict_intent(command)\<close> returned.
\<close>

definition get_enhanced_intent ::
    "engine \<Rightarrow> nat \<Rightarrow> real \<Rightarrow> nat \<Rightarrow> string \<times> real \<Rightarrow> string \<Rightarrow> (string \<times> real) \<times> engine" where
  "get_enhanced_intent eng hour rnd pick base cmd =
     (case base of
        (base_intent, base_confidence) \<Rightarrow>
          (case rl_prediction eng (get_state_features hour cmd None) rnd pick
                  base_intent base_confidence of
             ((rl_intent, rl_confidence), eng1) \<Rightarrow>
               ((if base_confidence > 8 / 10 then (base_intent, base_confidence)
                 else if base_confidence < 3 / 10 \<and> rl_confidence > 6 / 10
                 then (rl_intent, rl_confidence)
                 else (base_intent, base_confidence)),
                eng1)))"

subsection \<open>The ledger: logging and feedback\<close>

text \<open>\<^verbatim>\<open>append\<close> on a \<^verbatim>\<open>deque(maxlen=...)\<close>: a full deque drops its oldest element.\<close>

definition deque_append :: "nat \<Rightarrow> 'a list \<Rightarrow> 'a \<Rightarrow> 'a list" where
  "deque_append maxlen xs x = (if length xs < maxlen then xs @ [x] else tl xs @ [x])"

text \<open>
  \<^verbatim>\<open>log_interaction\<close>: the dictionary it builds, then the append to the deque and to the
  file. \<open>now\<close> is the time stamp, \<open>hour\<close> the hour that \<^verbatim>\<open>get_state_features\<close> reads. The
  file receives the record as it is at this moment.
\<close>

definition new_interaction ::
    "string \<Rightarrow> nat \<Rightarrow> string \<Rightarrow> string \<Rightarrow> string \<Rightarrow> string \<Rightarrow> interaction" where
  "new_interaction now hour cmd chosen res uid =
     \<lparr>timestamp = now, command = cmd, intent = chosen, result = res,
      user_id = uid, state = get_state_features hour cmd None,
      success = None, feedback_score = None, interaction_id = None\<rparr>"

definition log_interaction ::
    "string \<Rightarrow> nat \<Rightarrow> string \<Rightarrow> string \<Rightarrow> string \<Rightarrow> string \<Rightarrow> engine \<times> disk \<Rightarrow> engine \<times> disk" where
  "log_interaction now hour cmd chosen res uid st =
     (case st of
        (eng, dsk) \<Rightarrow>
          (let it = new_interaction now hour cmd chosen res uid
           in (eng\<lparr>recent_interactions := deque_append 1000 (recent_interactions eng) it\<rparr>,
               dsk\<lparr>interactions_file := interactions_file dsk @ [it]\<rparr>)))"

text \<open>
  The Python values a method can hand back to its caller, as far as this module goes.
  \<^verbatim>\<open>record_feedback\<close> has two bare \<^verbatim>\<open>return\<close> statements and otherwise runs to its end: the
  caller gets \<^verbatim>\<open>None\<close> every time.
\<close>

datatype py_value = PyNone | PyBool bool | PyStr string

definition matches :: "string \<Rightarrow> interaction \<Rightarrow> bool" where
  "matches command_or_id it =
     (command it = command_or_id \<or> interaction_id it = Some command_or_id)"

fun find_first :: "('a \<Rightarrow> bool) \<Rightarrow> 'a list \<Rightarrow> nat option" where
  "find_first P [] = None"
| "find_first P (x # xs) = (if P x then Some 0 else map_option Suc (find_first P xs))"

text \<open>
  The scan \<^verbatim>\<open>for interaction in reversed(self.recent_interactions)\<close> with its \<^verbatim>\<open>break\<close>:
  the position in the deque of the object it stops at.
\<close>

definition find_target :: "interaction list \<Rightarrow> string \<Rightarrow> nat option" where
  "find_target buf command_or_id =
     map_option (\<lambda>k. length buf - 1 - k) (find_first (matches command_or_id) (rev buf))"

definition save_feedback :: "feedback_entry \<Rightarrow> disk \<Rightarrow> disk" where
  "save_feedback fb dsk =
     dsk\<lparr>feedback_file :=
           Some ((case feedback_file dsk of None \<Rightarrow> [] | Some feedbacks \<Rightarrow> feedbacks) @ [fb])\<rparr>"

text \<open>\<^verbatim>\<open>self.intent_success_rates[intent].append(b)\<close> on a \<^verbatim>\<open>defaultdict(list)\<close>.\<close>

definition append_success :: "(string, bool list) dict \<Rightarrow> string \<Rightarrow> bool \<Rightarrow> (string, bool list) dict" where
  "append_success d i b =
     (case dd_get [] d i of (rates, d1) \<Rightarrow> AList.update i (rates @ [b]) d1)"

text \<open>
  \<^verbatim>\<open>self.user_preferences[u][i] = self.user_preferences[u].get(i, []) + [rating]\<close> on a
  \<^verbatim>\<open>defaultdict(dict)\<close>: the right-hand side is evaluated first.
\<close>

definition add_preference ::
    "(string, (string, int list) dict) dict \<Rightarrow> string \<Rightarrow> string \<Rightarrow> int \<Rightarrow>
     (string, (string, int list) dict) dict" where
  "add_preference up u i rating =
     (case dd_get [] up u of
        (prefs, up1) \<Rightarrow>
          dd2_set up1 u i ((case map_of prefs i of None \<Rightarrow> [] | Some rs \<Rightarrow> rs) @ [rating]))"

text \<open>The two assignments of \<^verbatim>\<open>record_feedback\<close> to its target, as a function.\<close>

definition rated :: "int \<Rightarrow> interaction \<Rightarrow> interaction" where
  "rated rating it = it\<lparr>feedback_score := Some rating, success := Some (rating \<ge> 3)\<rparr>"

text \<open>
  \<^verbatim>\<open>record_feedback\<close>: the value returned, the engine and the files afterwards. The target
  is an object of the deque, mutated in place: position \<open>k\<close> of the list is replaced.
\<close>

definition record_feedback ::
    "string \<Rightarrow> string \<Rightarrow> int \<Rightarrow> string \<Rightarrow> engine \<times> disk \<Rightarrow> py_value \<times> engine \<times> disk" where
  "record_feedback now command_or_id rating uid st =
     (case st of
        (eng, dsk) \<Rightarrow>
          (if \<not> (1 \<le> rating \<and> rating \<le> 5) then (PyNone, eng, dsk)
           else
             (case find_target (recent_interactions eng) command_or_id of
                None \<Rightarrow> (PyNone, eng, dsk)
              | Some k \<Rightarrow>
                  (let target = (recent_interactions eng ! k)
                         \<lparr>feedback_score := Some rating, success := Some (rating \<ge> 3)\<rparr>;
                       eng1 = eng\<lparr>recent_interactions := (recent_interactions eng)[k := target]\<rparr>;
                       eng2 = update_q_value eng1 target;
                       eng3 = eng2\<lparr>intent_success_rates :=
                                append_success (intent_success_rates eng2) (intent target) (rating \<ge> 3)\<rparr>;
                       eng4 = eng3\<lparr>user_preferences :=
                                add_preference (user_preferences eng3) uid (intent target) rating\<rparr>;
                       feedback = \<lparr>fb_timestamp = now, fb_command = command target,
                                   fb_intent = intent target, fb_rating = rating,
                                   fb_user_id = uid, fb_state = state target\<rparr>
                   in (PyNone, eng4, save_feedback feedback dsk)))))"

subsection \<open>Persistence\<close>

definition save_model :: "engine \<Rightarrow> disk \<Rightarrow> disk" where
  "save_model eng dsk =
     dsk\<lparr>model_file :=
           Some \<lparr>md_q_table = q_table eng,
                 md_state_action_counts = state_action_counts eng,
                 md_intent_success_rates = intent_success_rates eng,
                 md_user_preferences = user_preferences eng,
                 md_learning_rate = learning_rate eng,
                 md_epsilon = epsilon eng\<rparr>\<rparr>"

text \<open>
  The two nested loops of \<^verbatim>\<open>load_model\<close> that rebuild a table of \<^verbatim>\<open>defaultdict\<close>s with
  \<^verbatim>\<open>table[state][action] = value\<close>, from an empty one.
\<close>

definition load_actions :: "'s \<Rightarrow> ('a, 'v) dict \<Rightarrow> ('s, ('a, 'v) dict) dict \<Rightarrow> ('s, ('a, 'v) dict) dict" where
  "load_actions s actions t = fold (\<lambda>(a, v) t'. dd2_set t' s a v) actions t"

definition load_table :: "('s, ('a, 'v) dict) dict \<Rightarrow> ('s, ('a, 'v) dict) dict" where
  "load_table saved = fold (\<lambda>(s, actions) t. load_actions s actions t) saved []"

text \<open>The one-level loops: \<^verbatim>\<open>d[key] = value\<close> for every item, from an empty dictionary.\<close>

definition load_dict :: "('k, 'v) dict \<Rightarrow> ('k, 'v) dict" where
  "load_dict saved = fold (\<lambda>(k, v) d. AList.update k v d) saved []"

definition load_model :: "engine \<Rightarrow> disk \<Rightarrow> engine" where
  "load_model eng dsk =
     (case model_file dsk of
        None \<Rightarrow> eng
      | Some md \<Rightarrow>
          eng\<lparr>q_table := load_table (md_q_table md),
              state_action_counts := load_table (md_state_action_counts md),
              intent_success_rates := load_dict (md_intent_success_rates md),
              user_preferences := load_dict (md_user_preferences md),
              learning_rate := md_learning_rate md,
              epsilon := md_epsilon md\<rparr>)"

text \<open>The attributes that \<^verbatim>\<open>__init__\<close> sets before it loads anything.\<close>

definition new_engine :: "real \<Rightarrow> real \<Rightarrow> engine" where
  "new_engine lr eps =
     \<lparr>learning_rate = lr, epsilon = eps, q_table = [], state_action_counts = [],
      recent_interactions = [], intent_success_rates = [], user_preferences = []\<rparr>"

definition empty_disk :: disk where
  "empty_disk = \<lparr>feedback_file = None, interactions_file = [], model_file = None\<rparr>"

text \<open>
  The body of the loop of \<^verbatim>\<open>load_feedback_history\<close> on the preferences: the user's
  dictionary and the intent's list are created when missing, then the rating is appended.
\<close>

definition remember_preference ::
    "(string, (string, int list) dict) dict \<Rightarrow> string \<Rightarrow> string \<Rightarrow> int \<Rightarrow>
     (string, (string, int list) dict) dict" where
  "remember_preference up u i rating =
     (let up1 = (if map_of up u = None then AList.update u [] up else up);
          up2 = (if map_of (case map_of up1 u of None \<Rightarrow> [] | Some prefs \<Rightarrow> prefs) i = None
                 then dd2_set up1 u i [] else up1)
      in dd2_set up2 u i (peek2 [] up2 u i @ [rating]))"

text \<open>
  \<^verbatim>\<open>load_feedback_history\<close>: nothing without the file; otherwise every entry of the file
  adds its outcome to the history of its intent and its rating to the preferences. The
  entries are those that \<^verbatim>\<open>save_feedback\<close> wrote, so every key that the loop reads is there.
\<close>

definition load_feedback_history :: "engine \<Rightarrow> disk \<Rightarrow> engine" where
  "load_feedback_history eng dsk =
     (case feedback_file dsk of
        None \<Rightarrow> eng
      | Some feedbacks \<Rightarrow>
          fold (\<lambda>fb e.
                  e\<lparr>intent_success_rates :=
                       append_success (intent_success_rates e) (fb_intent fb) (fb_rating fb \<ge> 3),
                    user_preferences :=
                       remember_preference (user_preferences e) (fb_user_id fb) (fb_intent fb)
                         (fb_rating fb)\<rparr>)
               feedbacks eng)"

text \<open>
  \<^verbatim>\<open>__init__\<close>: the new attributes, then \<^verbatim>\<open>load_feedback_history\<close> and \<^verbatim>\<open>load_model\<close>.
  (\<^verbatim>\<open>load_policies\<close>, which comes last, only sets \<^verbatim>\<open>task_policies\<close>, an attribute that no
  modelled method reads.)
\<close>

definition init_engine :: "real \<Rightarrow> real \<Rightarrow> disk \<Rightarrow> engine" where
  "init_engine lr eps dsk = load_model (load_feedback_history (new_engine lr eps) dsk) dsk"

text \<open>
  Well-formedness of the representation: a Python dictionary holds each key once. A table
  is a dictionary of dictionaries.
\<close>

definition dict_ok :: "('k, 'v) dict \<Rightarrow> bool" where
  "dict_ok d = distinct (map fst d)"

definition table_ok :: "('s, ('a, 'v) dict) dict \<Rightarrow> bool" where
  "table_ok t = (dict_ok t \<and> list_all (\<lambda>(s, inner). dict_ok inner) t)"

definition engine_ok :: "engine \<Rightarrow> bool" where
  "engine_ok eng =
     (table_ok (q_table eng) \<and> table_ok (state_action_counts eng)
      \<and> dict_ok (intent_success_rates eng) \<and> table_ok (user_preferences eng))"

text \<open>The entries of a table whose inner dictionary has at least one action.\<close>

definition non_empty_rows :: "('s, ('a, 'v) dict) dict \<Rightarrow> ('s, ('a, 'v) dict) dict" where
  "non_empty_rows t = filter (\<lambda>(s, inner). inner \<noteq> []) t"

text \<open>
  What holds of every engine and disk the program can reach: besides well-formedness, no
  state of the two tables is without an action, on the engine and in the saved model. The
  reachable states start from an engine constructed with no files and are closed under the
  modelled methods and under a restart, the construction of a new engine on the files as
  they are.
\<close>

definition rows_filled :: "('s, ('a, 'v) dict) dict \<Rightarrow> bool" where
  "rows_filled t = list_all (\<lambda>(s, inner). inner \<noteq> []) t"

definition store_ok :: "engine \<Rightarrow> bool" where
  "store_ok eng =
     (engine_ok eng \<and> rows_filled (q_table eng) \<and> rows_filled (state_action_counts eng))"

definition disk_ok :: "disk \<Rightarrow> bool" where
  "disk_ok dsk =
     (case model_file dsk of
        None \<Rightarrow> True
      | Some md \<Rightarrow>
          table_ok (md_q_table md) \<and> table_ok (md_state_action_counts md)
          \<and> dict_ok (md_intent_success_rates md) \<and> table_ok (md_user_preferences md))"

inductive reachable :: "engine \<times> disk \<Rightarrow> bool" where
  start: "reachable (init_engine lr eps empty_disk, empty_disk)"
| decide: "reachable (eng, dsk) \<Longrightarrow>
     reachable (snd (get_enhanced_intent eng hour rnd pick base cmd), dsk)"
| log: "reachable st \<Longrightarrow> reachable (log_interaction now hour cmd chosen res uid st)"
| feedback: "reachable st \<Longrightarrow> reachable (snd (record_feedback now c rating uid st))"
| save: "reachable (eng, dsk) \<Longrightarrow> reachable (eng, save_model eng dsk)"
| load: "reachable (eng, dsk) \<Longrightarrow> reachable (load_model eng dsk, dsk)"
| restart: "reachable (eng, dsk) \<Longrightarrow> reachable (init_engine lr eps dsk, dsk)"

subsection \<open>Basic facts about the dictionaries\<close>

lemma dd_get_present: "map_of d k = Some v \<Longrightarrow> dd_get dflt d k = (v, d)"
  by (simp add: dd_get_def)

lemma update_snoc_absent: "map_of d k = None \<Longrightarrow> AList.update k v d = d @ [(k, v)]"
  by (induction d) (auto split: if_splits)

lemma update_over_snoc: "map_of d k = None \<Longrightarrow> AList.update k v (d @ [(k, w)]) = d @ [(k, v)]"
  by (induction d) (auto split: if_splits)

lemma dd2_set_eq:
  "dd2_set t s a v =
     AList.update s (AList.update a v (case map_of t s of None \<Rightarrow> [] | Some inner \<Rightarrow> inner)) t"
  by (cases "map_of t s") (simp_all add: dd2_set_def dd_get_def update_over_snoc update_snoc_absent)

lemma peek2_dd2_set:
  "peek2 dflt (dd2_set t s a v) s' a' = (if s' = s \<and> a' = a then v else peek2 dflt t s' a')"
  by (cases "map_of t s") (auto simp: dd2_set_eq peek2_def AList.update_conv')

lemma dd2_get_fresh_state:
  "map_of t s = None \<Longrightarrow> dd2_get dflt t s a = (dflt, t @ [(s, [(a, dflt)])])"
  by (simp add: dd2_get_def dd_get_def update_over_snoc)

lemma dd2_get_fresh_action:
  "map_of t s = Some inner \<Longrightarrow> map_of inner a = None \<Longrightarrow>
     dd2_get dflt t s a = (dflt, AList.update s (inner @ [(a, dflt)]) t)"
  by (simp add: dd2_get_def dd_get_def)

lemma dd2_get_present:
  "map_of t s = Some inner \<Longrightarrow> map_of inner a = Some v \<Longrightarrow> dd2_get dflt t s a = (v, t)"
  by (simp add: dd2_get_def dd_get_def AList.update_triv)

lemma fst_dd2_get: "fst (dd2_get dflt t s a) = peek2 dflt t s a"
proof (cases "map_of t s")
  case None
  then show ?thesis by (simp add: dd2_get_fresh_state peek2_def)
next
  case (Some inner)
  then show ?thesis
    by (cases "map_of inner a") (simp_all add: dd2_get_fresh_action dd2_get_present peek2_def)
qed

lemma peek2_snd_dd2_get: "peek2 dflt (snd (dd2_get dflt t s a)) s' a' = peek2 dflt t s' a'"
proof (cases "map_of t s")
  case None
  then show ?thesis
    by (auto simp: dd2_get_fresh_state peek2_def map_add_def split: option.splits)
next
  case (Some inner)
  then show ?thesis
    by (cases "map_of inner a")
       (auto simp: dd2_get_fresh_action dd2_get_present peek2_def AList.update_conv' map_add_def
             split: option.splits)
qed

subsection \<open>Reward bounds\<close>

lemma clamp_reward_bounds: "- 1 \<le> clamp_reward t \<and> clamp_reward t \<le> 1"
  by (cases t) (simp_all add: clamp_reward_def)

text \<open>
  C3. Whatever the interaction (a rating present or absent), the visit counts and the
  success histories, the reward that \<^verbatim>\<open>calculate_reward\<close> returns lies in \<open>[-1, 1]\<close>: its
  last step is the clamp.
\<close>

theorem calculate_reward_bounded:
  "- 1 \<le> fst (calculate_reward eng it) \<and> fst (calculate_reward eng it) \<le> 1"
  by (simp add: calculate_reward_def Let_def split: prod.splits) (simp add: clamp_reward_bounds)

subsection \<open>The update rule\<close>

lemma learning_rate_q_update: "learning_rate (q_update e s a r) = learning_rate e"
  by (simp add: q_update_def Let_def split: prod.splits)

lemma q_value_q_update:
  "peek2 0 (q_table (q_update e s a r)) s' a' =
     (if s' = s \<and> a' = a
      then peek2 0 (q_table e) s a + learning_rate e * (r - peek2 0 (q_table e) s a)
      else peek2 0 (q_table e) s' a')"
proof -
  obtain v q1 where g: "dd2_get 0 (q_table e) s a = (v, q1)"
    by (cases "dd2_get 0 (q_table e) s a")
  have v: "v = peek2 0 (q_table e) s a"
    using fst_dd2_get [of 0 "q_table e" s a] g by simp
  have q1: "peek2 0 q1 s' a' = peek2 0 (q_table e) s' a'"
    using peek2_snd_dd2_get [of 0 "q_table e" s a s' a'] g by simp
  show ?thesis
    by (simp add: q_update_def Let_def g peek2_dd2_set q1 v split: prod.splits)
qed

lemma count_q_update:
  "peek2 0 (state_action_counts (q_update e s a r)) s' a' =
     (if s' = s \<and> a' = a
      then peek2 0 (state_action_counts e) s a + 1
      else peek2 0 (state_action_counts e) s' a')"
proof -
  obtain c c1 where g: "dd2_get 0 (state_action_counts e) s a = (c, c1)"
    by (cases "dd2_get 0 (state_action_counts e) s a")
  have c: "c = peek2 0 (state_action_counts e) s a"
    using fst_dd2_get [of 0 "state_action_counts e" s a] g by simp
  have c1: "peek2 0 c1 s' a' = peek2 0 (state_action_counts e) s' a'"
    using peek2_snd_dd2_get [of 0 "state_action_counts e" s a s' a'] g by simp
  show ?thesis
    by (simp add: q_update_def Let_def g peek2_dd2_set c1 c split: prod.splits)
qed

lemma learning_rate_repeat: "learning_rate (repeat_update n eng s a r) = learning_rate eng"
  by (induction n) (simp_all add: repeat_update_def learning_rate_q_update)

lemma repeat_update_error:
  "peek2 0 (q_table (repeat_update n eng s a r)) s a - r =
     (peek2 0 (q_table eng) s a - r) * (1 - learning_rate eng) ^ n"
proof (induction n)
  case 0
  show ?case by (simp add: repeat_update_def)
next
  case (Suc n)
  let ?e = "repeat_update n eng s a r"
  have "peek2 0 (q_table (repeat_update (Suc n) eng s a r)) s a - r =
        (peek2 0 (q_table ?e) s a - r) * (1 - learning_rate ?e)"
    by (simp add: repeat_update_def q_value_q_update algebra_simps)
  then show ?case
    by (simp add: Suc.IH learning_rate_repeat)
qed

text \<open>
  C2. With a learning rate in \<open>(0, 1]\<close>, feeding the same state, action and reward \<open>r\<close>
  through the update \<open>n\<close> times leaves the stored value at distance
  \<open>|value\<^sub>0 - r| * (1 - \<alpha>)\<^sup>n\<close> from \<open>r\<close>; each further update brings it no farther from \<open>r\<close>,
  and it moves towards \<open>r\<close> from the side it started on without crossing. (Holds for every
  real \<open>r\<close>, in particular for \<open>r\<close> in \<open>[-1, 1]\<close>, and for every \<open>n\<close>.)
\<close>

theorem update_convergence:
  assumes "0 < learning_rate eng" and "learning_rate eng \<le> 1"
  shows "\<bar>peek2 0 (q_table (repeat_update n eng s a r)) s a - r\<bar> =
           \<bar>peek2 0 (q_table eng) s a - r\<bar> * (1 - learning_rate eng) ^ n
         \<and> \<bar>peek2 0 (q_table (repeat_update (Suc n) eng s a r)) s a - r\<bar>
             \<le> \<bar>peek2 0 (q_table (repeat_update n eng s a r)) s a - r\<bar>
         \<and> (peek2 0 (q_table eng) s a \<le> r \<longrightarrow>
              peek2 0 (q_table (repeat_update n eng s a r)) s a
                \<le> peek2 0 (q_table (repeat_update (Suc n) eng s a r)) s a
              \<and> peek2 0 (q_table (repeat_update (Suc n) eng s a r)) s a \<le> r)
         \<and> (r \<le> peek2 0 (q_table eng) s a \<longrightarrow>
              r \<le> peek2 0 (q_table (repeat_update (Suc n) eng s a r)) s a
              \<and> peek2 0 (q_table (repeat_update (Suc n) eng s a r)) s a
                  \<le> peek2 0 (q_table (repeat_update n eng s a r)) s a)"
proof -
  let ?l = "learning_rate eng"
  let ?v = "\<lambda>k. peek2 0 (q_table (repeat_update k eng s a r)) s a"
  let ?init = "peek2 0 (q_table eng) s a"
  have k: "0 \<le> 1 - ?l" "1 - ?l < 1" using assms by simp_all
  have err: "?v k - r = (?init - r) * (1 - ?l) ^ k" for k
    by (rule repeat_update_error)
  have pw: "0 \<le> (1 - ?l) ^ k" for k using k by simp
  have dec: "(1 - ?l) ^ Suc k \<le> (1 - ?l) ^ k" for k
    using k by (simp add: mult_left_le_one_le)
  have c1: "\<bar>?v n - r\<bar> = \<bar>?init - r\<bar> * (1 - ?l) ^ n"
    using pw [of n] by (simp add: err abs_mult)
  have c1': "\<bar>?v (Suc n) - r\<bar> = \<bar>?init - r\<bar> * (1 - ?l) ^ Suc n"
    using pw [of "Suc n"] by (simp only: err abs_mult abs_of_nonneg)
  have c2: "\<bar>?v (Suc n) - r\<bar> \<le> \<bar>?v n - r\<bar>"
    unfolding c1 c1' using dec [of n] by (intro mult_left_mono) simp_all
  have c3: "?v n \<le> ?v (Suc n) \<and> ?v (Suc n) \<le> r" if "?init \<le> r"
  proof -
    have "(?init - r) * (1 - ?l) ^ n \<le> (?init - r) * (1 - ?l) ^ Suc n"
      using that dec [of n] by (intro mult_left_mono_neg) simp_all
    moreover have "(?init - r) * (1 - ?l) ^ Suc n \<le> 0"
      using that pw [of "Suc n"] by (intro mult_nonpos_nonneg) simp_all
    ultimately show ?thesis using err [of n] err [of "Suc n"] by linarith
  qed
  have c4: "r \<le> ?v (Suc n) \<and> ?v (Suc n) \<le> ?v n" if "r \<le> ?init"
  proof -
    have "(?init - r) * (1 - ?l) ^ Suc n \<le> (?init - r) * (1 - ?l) ^ n"
      using that dec [of n] by (intro mult_left_mono) simp_all
    moreover have "0 \<le> (?init - r) * (1 - ?l) ^ Suc n"
      using that pw [of "Suc n"] by (intro mult_nonneg_nonneg) simp_all
    ultimately show ?thesis using err [of n] err [of "Suc n"] by linarith
  qed
  show ?thesis using c1 c2 c3 c4 by blast
qed

theorem update_convergence_witness:
  "0 < learning_rate (new_engine (1 / 2) (1 / 10))
   \<and> learning_rate (new_engine (1 / 2) (1 / 10)) \<le> 1
   \<and> peek2 0 (q_table (new_engine (1 / 2) (1 / 10))) ''s'' ''a'' = 0
   \<and> peek2 0 (q_table (repeat_update 2 (new_engine (1 / 2) (1 / 10)) ''s'' ''a'' 1)) ''s'' ''a'' = 3 / 4"
proof -
  let ?e = "new_engine (1 / 2) (1 / 10)"
  let ?v = "peek2 0 (q_table (repeat_update 2 ?e ''s'' ''a'' 1)) ''s'' ''a''"
  let ?w = "peek2 0 (q_table (repeat_update (Suc 2) ?e ''s'' ''a'' 1)) ''s'' ''a''"
  have lr: "learning_rate ?e = 1 / 2" and v0: "peek2 0 (q_table ?e) ''s'' ''a'' = 0"
    by (simp_all add: new_engine_def peek2_def)
  have h: "0 < learning_rate ?e" "learning_rate ?e \<le> 1" by (simp_all add: lr)
  note th = update_convergence [OF h, of 2 "''s''" "''a''" 1]
  from th have "\<bar>?v - 1\<bar> = \<bar>peek2 0 (q_table ?e) ''s'' ''a'' - 1\<bar> * (1 - learning_rate ?e) ^ 2"
    by (rule conjunct1)
  then have d: "\<bar>?v - 1\<bar> = 1 / 4"
    unfolding lr v0 by (simp add: power2_eq_square)
  from th have "peek2 0 (q_table ?e) ''s'' ''a'' \<le> 1 \<longrightarrow> ?v \<le> ?w \<and> ?w \<le> 1"
    by blast
  then have "?v \<le> 1" unfolding v0 by simp
  with d have "?v = 3 / 4" by linarith
  then show ?thesis using h v0 by blast
qed

subsection \<open>What the reward and the update read and write\<close>

lemma calculate_reward_engine:
  "snd (calculate_reward e it) =
     e\<lparr>state_action_counts := snd (dd2_get 0 (state_action_counts e) (state it) (intent it))\<rparr>"
  by (simp add: calculate_reward_def Let_def split: prod.splits)

lemma calculate_reward_value:
  "fst (calculate_reward e it) =
     reward_formula (feedback_score it) (map_of (intent_success_rates e) (intent it))
       (peek2 0 (state_action_counts e) (state it) (intent it))"
proof -
  obtain c c1 where g: "dd2_get 0 (state_action_counts e) (state it) (intent it) = (c, c1)"
    by (cases "dd2_get 0 (state_action_counts e) (state it) (intent it)")
  have c: "c = peek2 0 (state_action_counts e) (state it) (intent it)"
    using fst_dd2_get [of 0 "state_action_counts e" "state it" "intent it"] g by simp
  show ?thesis
    by (simp add: calculate_reward_def reward_formula_def base_reward_of_def add_success_bonus_def
          exploration_bonus_of_def Let_def g c option.map_comp comp_def split: option.splits)
qed


lemma q_update_frame:
  "recent_interactions (q_update e s a r) = recent_interactions e"
  "intent_success_rates (q_update e s a r) = intent_success_rates e"
  "user_preferences (q_update e s a r) = user_preferences e"
  "epsilon (q_update e s a r) = epsilon e"
  by (simp_all add: q_update_def Let_def split: prod.splits)

lemma update_q_value_eq:
  "update_q_value e it =
     q_update (snd (calculate_reward e it)) (state it) (intent it) (fst (calculate_reward e it))"
  by (simp add: update_q_value_def split: prod.splits)

lemma update_q_value_frame:
  "recent_interactions (update_q_value e it) = recent_interactions e"
  "intent_success_rates (update_q_value e it) = intent_success_rates e"
  "user_preferences (update_q_value e it) = user_preferences e"
  "epsilon (update_q_value e it) = epsilon e"
  "learning_rate (update_q_value e it) = learning_rate e"
  by (simp_all add: update_q_value_eq q_update_frame learning_rate_q_update calculate_reward_engine)

lemma q_value_update_q_value:
  "peek2 0 (q_table (update_q_value e it)) s' a' =
     (if s' = state it \<and> a' = intent it
      then peek2 0 (q_table e) (state it) (intent it)
           + learning_rate e * (fst (calculate_reward e it) - peek2 0 (q_table e) (state it) (intent it))
      else peek2 0 (q_table e) s' a')"
  by (simp add: update_q_value_eq q_value_q_update calculate_reward_engine)

lemma count_update_q_value:
  "peek2 0 (state_action_counts (update_q_value e it)) s' a' =
     (if s' = state it \<and> a' = intent it
      then peek2 0 (state_action_counts e) (state it) (intent it) + 1
      else peek2 0 (state_action_counts e) s' a')"
  by (simp add: update_q_value_eq count_q_update calculate_reward_engine peek2_snd_dd2_get)

lemma record_feedback_invalid:
  "\<not> (1 \<le> rating \<and> rating \<le> 5) \<Longrightarrow>
     record_feedback now c rating uid (eng, dsk) = (PyNone, eng, dsk)"
  by (simp add: record_feedback_def)

lemma record_feedback_not_found:
  "1 \<le> rating \<Longrightarrow> rating \<le> 5 \<Longrightarrow> find_target (recent_interactions eng) c = None \<Longrightarrow>
     record_feedback now c rating uid (eng, dsk) = (PyNone, eng, dsk)"
  by (simp add: record_feedback_def)

lemma record_feedback_recorded:
  assumes "1 \<le> rating" "rating \<le> 5" "find_target (recent_interactions eng) c = Some k"
  shows "record_feedback now c rating uid (eng, dsk) =
    (PyNone,
     (update_q_value (eng\<lparr>recent_interactions := (recent_interactions eng)[k := rated rating (recent_interactions eng ! k)]\<rparr>)
        (rated rating (recent_interactions eng ! k)))
       \<lparr>intent_success_rates :=
           append_success (intent_success_rates eng) (intent (recent_interactions eng ! k)) (rating \<ge> 3),
        user_preferences :=
           add_preference (user_preferences eng) uid (intent (recent_interactions eng ! k)) rating\<rparr>,
     save_feedback \<lparr>fb_timestamp = now, fb_command = command (recent_interactions eng ! k),
                    fb_intent = intent (recent_interactions eng ! k), fb_rating = rating,
                    fb_user_id = uid, fb_state = state (recent_interactions eng ! k)\<rparr> dsk)"
  using assms by (simp add: record_feedback_def Let_def rated_def update_q_value_frame)


subsection \<open>Resolving the target of a feedback\<close>

lemma find_target_snoc:
  "find_target (xs @ [x]) c = (if matches c x then Some (length xs) else find_target xs c)"
  by (simp add: find_target_def option.map_comp comp_def)

lemma find_target_Nil: "find_target [] c = None"
  by (simp add: find_target_def)

lemma find_target_None_iff: "find_target buf c = None \<longleftrightarrow> (\<forall>it \<in> set buf. \<not> matches c it)"
  by (induction buf rule: rev_induct) (auto simp: find_target_snoc find_target_Nil)

lemma find_target_Some_iff:
  "find_target buf c = Some k \<longleftrightarrow>
     k < length buf \<and> matches c (buf ! k) \<and> (\<forall>j. k < j \<and> j < length buf \<longrightarrow> \<not> matches c (buf ! j))"
proof (induction buf rule: rev_induct)
  case Nil
  show ?case by (simp add: find_target_Nil)
next
  case (snoc x xs)
  show ?case
  proof (cases "matches c x")
    case True
    show ?thesis
    proof
      assume "find_target (xs @ [x]) c = Some k"
      then have "k = length xs" using True by (simp add: find_target_snoc)
      then show "k < length (xs @ [x]) \<and> matches c ((xs @ [x]) ! k) \<and>
                 (\<forall>j. k < j \<and> j < length (xs @ [x]) \<longrightarrow> \<not> matches c ((xs @ [x]) ! j))"
        using True by auto
    next
      assume a: "k < length (xs @ [x]) \<and> matches c ((xs @ [x]) ! k) \<and>
                 (\<forall>j. k < j \<and> j < length (xs @ [x]) \<longrightarrow> \<not> matches c ((xs @ [x]) ! j))"
      have "k = length xs"
      proof (rule ccontr)
        assume "k \<noteq> length xs"
        with a have "k < length xs" by simp
        moreover from a have "k < length xs \<and> length xs < length (xs @ [x]) \<longrightarrow>
            \<not> matches c ((xs @ [x]) ! length xs)"
          by blast
        ultimately have "\<not> matches c ((xs @ [x]) ! length xs)" by simp
        with True show False by simp
      qed
      then show "find_target (xs @ [x]) c = Some k" using True by (simp add: find_target_snoc)
    qed
  next
    case False
    have "find_target (xs @ [x]) c = Some k \<longleftrightarrow> find_target xs c = Some k"
      using False by (simp add: find_target_snoc)
    also have "\<dots> \<longleftrightarrow> k < length xs \<and> matches c (xs ! k) \<and>
                 (\<forall>j. k < j \<and> j < length xs \<longrightarrow> \<not> matches c (xs ! j))"
      by (rule snoc.IH)
    also have "\<dots> \<longleftrightarrow> k < length (xs @ [x]) \<and> matches c ((xs @ [x]) ! k) \<and>
                 (\<forall>j. k < j \<and> j < length (xs @ [x]) \<longrightarrow> \<not> matches c ((xs @ [x]) ! j))"
      using False by (auto simp: nth_append less_Suc_eq)
    finally show ?thesis .
  qed
qed


subsection \<open>The deque and the value store after a recorded feedback\<close>

lemma recent_after_feedback:
  assumes "1 \<le> rating" "rating \<le> 5" "find_target (recent_interactions eng) c = Some k"
  shows "recent_interactions (fst (snd (record_feedback now c rating uid (eng, dsk)))) =
           (recent_interactions eng)[k := rated rating (recent_interactions eng ! k)]"
  using assms by (simp add: record_feedback_recorded update_q_value_frame)

lemma q_table_after_feedback:
  assumes "1 \<le> rating" "rating \<le> 5" "find_target (recent_interactions eng) c = Some k"
  shows "q_table (fst (snd (record_feedback now c rating uid (eng, dsk)))) =
           q_table (update_q_value
             (eng\<lparr>recent_interactions := (recent_interactions eng)[k := rated rating (recent_interactions eng ! k)]\<rparr>)
             (rated rating (recent_interactions eng ! k)))"
  using assms by (simp add: record_feedback_recorded)

lemma deque_append_twice:
  assumes "2 \<le> n"
  shows "\<exists>zs. deque_append n (deque_append n xs x) y = zs @ [x, y]"
proof (cases "length xs < n")
  case True
  show ?thesis
  proof (cases "Suc (length xs) < n")
    case True
    with \<open>length xs < n\<close> show ?thesis by (simp add: deque_append_def)
  next
    case False
    with \<open>length xs < n\<close> assms have "xs \<noteq> []" by auto
    with False \<open>length xs < n\<close> show ?thesis by (simp add: deque_append_def)
  qed
next
  case False
  with assms have "tl xs \<noteq> []" by (cases xs; cases "tl xs") auto
  moreover from this have "xs \<noteq> []" by auto
  ultimately show ?thesis using False by (simp add: deque_append_def)
qed


subsection \<open>The order of effects of a recorded feedback\<close>

lemma map_of_append_success:
  "map_of (append_success d i b) j =
     (if j = i then Some ((case map_of d i of None \<Rightarrow> [] | Some h \<Rightarrow> h) @ [b]) else map_of d j)"
  by (cases "map_of d i") (auto simp: append_success_def dd_get_def AList.update_conv' map_add_def split: option.splits)

lemma after_feedback_fields:
  assumes "1 \<le> rating" "rating \<le> 5" "find_target (recent_interactions eng) c = Some k"
  shows "intent_success_rates (fst (snd (record_feedback now c rating uid (eng, dsk)))) =
           append_success (intent_success_rates eng) (intent (recent_interactions eng ! k)) (3 \<le> rating)"
    and "user_preferences (fst (snd (record_feedback now c rating uid (eng, dsk)))) =
           add_preference (user_preferences eng) uid (intent (recent_interactions eng ! k)) rating"
    and "state_action_counts (fst (snd (record_feedback now c rating uid (eng, dsk)))) =
           state_action_counts (update_q_value
             (eng\<lparr>recent_interactions := (recent_interactions eng)[k := rated rating (recent_interactions eng ! k)]\<rparr>)
             (rated rating (recent_interactions eng ! k)))"
    and "learning_rate (fst (snd (record_feedback now c rating uid (eng, dsk)))) = learning_rate eng"
    and "epsilon (fst (snd (record_feedback now c rating uid (eng, dsk)))) = epsilon eng"
  using assms by (simp_all add: record_feedback_recorded update_q_value_frame)

text \<open>
  C10. When a feedback is recorded for the interaction \<open>it\<close>, the stored value of
  (state, intent) moves by the learning rate towards a reward computed from the rating
  just given and from the engine as it was before this feedback: the success history of
  the intent without the outcome being recorded (which is appended afterwards) and the
  visit count before its increment. So the first feedback for a pair (count 0) of an
  intent without history gets the whole exploration bonus \<open>0.1\<close>.
\<close>

theorem reward_reads_state_before_feedback:
  fixes eng :: engine and dsk :: disk and now c uid :: string and rating :: int and k :: nat
  defines "it \<equiv> recent_interactions eng ! k"
  defines "after \<equiv> fst (snd (record_feedback now c rating uid (eng, dsk)))"
  defines "history \<equiv> map_of (intent_success_rates eng) (intent it)"
  defines "visits \<equiv> peek2 0 (state_action_counts eng) (state it) (intent it)"
  defines "old_q \<equiv> peek2 0 (q_table eng) (state it) (intent it)"
  defines "reward \<equiv>
     clamp_reward
       (map_option (\<lambda>b. b + 1 / (1 + real visits) * (1 / 10))
          (case history of
             None \<Rightarrow> Some ((real_of_int rating - 3) / 2)
           | Some rates \<Rightarrow>
               map_option (\<lambda>m. (real_of_int rating - 3) / 2 + (m - 1 / 2) * (2 / 10))
                 (np_mean (last_n 10 rates))))"
  assumes "1 \<le> rating" and "rating \<le> 5"
    and "find_target (recent_interactions eng) c = Some k"
  shows
    "peek2 0 (q_table after) (state it) (intent it) = old_q + learning_rate eng * (reward - old_q)
     \<and> peek2 0 (state_action_counts after) (state it) (intent it) = visits + 1
     \<and> map_of (intent_success_rates after) (intent it) =
         Some ((case history of None \<Rightarrow> [] | Some rates \<Rightarrow> rates) @ [3 \<le> rating])
     \<and> (visits = 0 \<and> history = None \<longrightarrow>
          reward = max (- 1) (min 1 ((real_of_int rating - 3) / 2 + 1 / 10)))"
proof -
  let ?target = "rated rating it"
  let ?e1 = "eng\<lparr>recent_interactions := (recent_interactions eng)[k := ?target]\<rparr>"
  have tgt: "state ?target = state it" "intent ?target = intent it"
    "feedback_score ?target = Some rating"
    by (simp_all add: rated_def)
  have "fst (calculate_reward ?e1 ?target) = reward_formula (Some rating) history visits"
    by (simp add: calculate_reward_value tgt history_def visits_def)
  also have "\<dots> = reward"
    by (simp add: reward_def reward_formula_def base_reward_of_def add_success_bonus_def
          exploration_bonus_of_def)
  finally have rw: "fst (calculate_reward ?e1 ?target) = reward" .
  have q: "q_table after = q_table (update_q_value ?e1 ?target)"
    unfolding after_def it_def using q_table_after_feedback [OF assms(7-9)] by simp
  have c: "state_action_counts after = state_action_counts (update_q_value ?e1 ?target)"
    unfolding after_def it_def using after_feedback_fields(3) [OF assms(7-9)] by simp
  have h: "intent_success_rates after = append_success (intent_success_rates eng) (intent it) (3 \<le> rating)"
    unfolding after_def it_def using after_feedback_fields(1) [OF assms(7-9)] by simp
  have 1: "peek2 0 (q_table after) (state it) (intent it) = old_q + learning_rate eng * (reward - old_q)"
    by (simp add: q q_value_update_q_value tgt rw old_q_def)
  have 2: "peek2 0 (state_action_counts after) (state it) (intent it) = visits + 1"
    by (simp add: c count_update_q_value tgt visits_def)
  have 3: "map_of (intent_success_rates after) (intent it) =
         Some ((case history of None \<Rightarrow> [] | Some rates \<Rightarrow> rates) @ [3 \<le> rating])"
    by (simp add: h map_of_append_success history_def)
  have 4: "visits = 0 \<and> history = None \<longrightarrow>
          reward = max (- 1) (min 1 ((real_of_int rating - 3) / 2 + 1 / 10))"
    by (simp add: reward_def clamp_reward_def)
  show ?thesis using 1 2 3 4 by blast
qed

theorem reward_reads_state_before_feedback_witness:
  "(1 :: int) \<le> 4 \<and> (4 :: int) \<le> 5
   \<and> find_target
        [\<lparr>timestamp = ''t0'', command = ''open notes'', intent = ''launch_app'', result = ''ok'',
          user_id = ''default'', state = ''app'', success = None, feedback_score = None,
          interaction_id = None\<rparr>] ''open notes'' = Some 0
   \<and> peek2 0
        (q_table (fst (snd (record_feedback ''t1'' ''open notes'' 4 ''default''
           (\<lparr>learning_rate = 1 / 2, epsilon = 1 / 10, q_table = [],
             state_action_counts = [(''app'', [(''launch_app'', 1)])],
             recent_interactions =
               [\<lparr>timestamp = ''t0'', command = ''open notes'', intent = ''launch_app'',
                 result = ''ok'', user_id = ''default'', state = ''app'', success = None,
                 feedback_score = None, interaction_id = None\<rparr>],
             intent_success_rates = [(''launch_app'', [False])],
             user_preferences = []\<rparr>, empty_disk)))))
        ''app'' ''launch_app'' = 9 / 40"
proof -
  let ?it = "\<lparr>timestamp = ''t0'', command = ''open notes'', intent = ''launch_app'', result = ''ok'',
          user_id = ''default'', state = ''app'', success = None, feedback_score = None,
          interaction_id = None\<rparr>"
  let ?e = "\<lparr>learning_rate = 1 / 2, epsilon = 1 / 10, q_table = [],
             state_action_counts = [(''app'', [(''launch_app'', 1 :: nat)])],
             recent_interactions = [?it],
             intent_success_rates = [(''launch_app'', [False])],
             user_preferences = []\<rparr>"
  have f: "find_target (recent_interactions ?e) ''open notes'' = Some 0"
    by (simp add: find_target_def matches_def)
  have v: "(1 :: int) \<le> 4" "(4 :: int) \<le> 5" by simp_all
  show ?thesis
    using reward_reads_state_before_feedback [OF v f, of "''t1''" "''default''" empty_disk] f
    by (simp add: peek2_def np_mean_def last_n_def clamp_reward_def)
qed


subsection \<open>The end-to-end scenario\<close>

text \<open>
  C1, as the spec has it. On a fresh engine the command
  \<^verbatim>\<open>schedule meeting tomorrow at 4pm\<close> is logged with intent \<^verbatim>\<open>calendar_event\<close> (at 10
  o'clock the state key is \<^verbatim>\<open>calendar|medium|morning\<close>) and rated 5. The reward is not
  \<open>0.6\<close> and the stored value afterwards is not \<open>0.06\<close>.
\<close>

theorem scenario_reward_counterexample:
  "fst (calculate_reward
          (fst (log_interaction ''t0'' 10 ''schedule meeting tomorrow at 4pm'' ''calendar_event''
                  ''ok'' ''default'' (new_engine (1 / 10) (1 / 10), empty_disk)))
          (rated 5 (new_interaction ''t0'' 10 ''schedule meeting tomorrow at 4pm''
                  ''calendar_event'' ''ok'' ''default''))) \<noteq> 6 / 10
   \<and> peek2 0
        (q_table (fst (snd
           (record_feedback ''t1'' ''schedule meeting tomorrow at 4pm'' 5 ''default''
              (log_interaction ''t0'' 10 ''schedule meeting tomorrow at 4pm'' ''calendar_event''
                 ''ok'' ''default'' (new_engine (1 / 10) (1 / 10), empty_disk))))))
        ''calendar|medium|morning'' ''calendar_event'' \<noteq> 6 / 100"
proof -
  have s: "get_state_features 10 ''schedule meeting tomorrow at 4pm'' None = ''calendar|medium|morning''"
    by (simp add: get_state_features_def py_split_def is_space_def py_lower_def lower_char_def
          any_word_in_def Let_def)
  have r: "fst (calculate_reward
          (fst (log_interaction ''t0'' 10 ''schedule meeting tomorrow at 4pm'' ''calendar_event''
                  ''ok'' ''default'' (new_engine (1 / 10) (1 / 10), empty_disk)))
          (rated 5 (new_interaction ''t0'' 10 ''schedule meeting tomorrow at 4pm''
                  ''calendar_event'' ''ok'' ''default''))) = 1"
    by (simp add: calculate_reward_def log_interaction_def new_engine_def rated_def
          new_interaction_def dd2_get_def dd_get_def clamp_reward_def Let_def)
  have q: "peek2 0
        (q_table (fst (snd
           (record_feedback ''t1'' ''schedule meeting tomorrow at 4pm'' 5 ''default''
              (log_interaction ''t0'' 10 ''schedule meeting tomorrow at 4pm'' ''calendar_event''
                 ''ok'' ''default'' (new_engine (1 / 10) (1 / 10), empty_disk))))))
        ''calendar|medium|morning'' ''calendar_event'' = 1 / 10"
    by (simp add: record_feedback_def log_interaction_def new_engine_def deque_append_def
          new_interaction_def find_target_def matches_def Let_def update_q_value_def
          calculate_reward_def q_update_def dd2_get_def dd2_set_def dd_get_def clamp_reward_def
          peek2_def s)
  show ?thesis by (simp add: r q)
qed

text \<open>
  C1, amended. Whatever the hour, the time stamps, the user and the exploration rate: on a
  fresh engine with learning rate \<open>0.1\<close> the decision returns the base prediction
  \<^verbatim>\<open>("calendar_event", 0.75)\<close>; a feedback with rating 5 is recorded on the logged
  interaction; its reward is
  \<open>(5 - 3) / 2 + 0.1 = 1.1\<close> clamped to \<open>1\<close> (no success bonus, the intent has no history);
  the stored value of (state, \<^verbatim>\<open>calendar_event\<close>) goes from \<open>0\<close> to
  \<open>0 + 0.1 * (1 - 0) = 0.1\<close>.
\<close>

theorem scenario_reward_and_value:
  fixes t0 t1 res uid uid' :: string and hour pick :: nat and eps rnd :: real and dsk :: disk
  defines "cmd \<equiv> ''schedule meeting tomorrow at 4pm''"
  defines "st \<equiv> log_interaction t0 hour cmd ''calendar_event'' res uid (new_engine (1 / 10) eps, dsk)"
  defines "s \<equiv> get_state_features hour cmd None"
  shows
    "fst (get_enhanced_intent (new_engine (1 / 10) eps) hour rnd pick (''calendar_event'', 75 / 100) cmd)
       = (''calendar_event'', 75 / 100)
     \<and> recent_interactions (fst (snd (record_feedback t1 cmd 5 uid' st)))
         = [rated 5 (new_interaction t0 hour cmd ''calendar_event'' res uid)]
     \<and> fst (calculate_reward (fst st) (rated 5 (new_interaction t0 hour cmd ''calendar_event'' res uid)))
         = max (- 1) (min 1 ((5 - 3) / 2 + 1 / 10))
     \<and> fst (calculate_reward (fst st) (rated 5 (new_interaction t0 hour cmd ''calendar_event'' res uid)))
         = 1
     \<and> peek2 0 (q_table (fst st)) s ''calendar_event'' = 0
     \<and> peek2 0 (q_table (fst (snd (record_feedback t1 cmd 5 uid' st)))) s ''calendar_event''
         = 0 + 1 / 10 * (1 - 0)
     \<and> peek2 0 (q_table (fst (snd (record_feedback t1 cmd 5 uid' st)))) s ''calendar_event'' = 1 / 10"
proof -
  let ?it = "new_interaction t0 hour cmd ''calendar_event'' res uid"
  have e: "fst st = (new_engine (1 / 10) eps)\<lparr>recent_interactions := [?it]\<rparr>"
    by (simp add: st_def log_interaction_def new_engine_def deque_append_def Let_def)
  have ft: "find_target (recent_interactions (fst st)) cmd = Some 0"
    by (simp add: e find_target_def matches_def new_interaction_def)
  have d: "fst (get_enhanced_intent (new_engine (1 / 10) eps) hour rnd pick (''calendar_event'', 75 / 100) cmd)
       = (''calendar_event'', 75 / 100)"
    by (simp add: get_enhanced_intent_def rl_prediction_def new_engine_def)
  have st_pair: "st = (fst st, snd st)" by simp
  have ri: "recent_interactions (fst st) = [?it]" by (simp add: e)
  have rec: "recent_interactions (fst (snd (record_feedback t1 cmd 5 uid' st))) = [rated 5 ?it]"
    using recent_after_feedback [of 5 "fst st" cmd 0 t1 uid' "snd st"] ft unfolding ri by simp
  have r: "fst (calculate_reward (fst st) (rated 5 ?it)) = 1"
    by (simp add: calculate_reward_value e reward_formula_def base_reward_of_def add_success_bonus_def
          exploration_bonus_of_def clamp_reward_def rated_def new_interaction_def new_engine_def peek2_def)
  have q0: "peek2 0 (q_table (fst st)) s ''calendar_event'' = 0"
    by (simp add: e new_engine_def peek2_def)
  let ?e1 = "(fst st)\<lparr>recent_interactions := (recent_interactions (fst st))[0 := rated 5 (recent_interactions (fst st) ! 0)]\<rparr>"
  have tg: "recent_interactions (fst st) ! 0 = ?it" by (simp add: e)
  have sa: "state (rated 5 ?it) = s" "intent (rated 5 ?it) = ''calendar_event''"
    by (simp_all add: rated_def new_interaction_def s_def)
  have r1: "fst (calculate_reward ?e1 (rated 5 ?it)) = 1"
    by (simp add: calculate_reward_value e reward_formula_def base_reward_of_def add_success_bonus_def
          exploration_bonus_of_def clamp_reward_def rated_def new_interaction_def new_engine_def peek2_def)
  have old: "peek2 0 (q_table ?e1) s ''calendar_event'' = 0" "learning_rate ?e1 = 1 / 10"
    by (simp_all add: e new_engine_def peek2_def)
  have "q_table (fst (snd (record_feedback t1 cmd 5 uid' st))) =
          q_table (update_q_value ?e1 (rated 5 ?it))"
    using q_table_after_feedback [of 5 "fst st" cmd 0 t1 uid' "snd st"] ft by (simp add: tg)
  then have "peek2 0 (q_table (fst (snd (record_feedback t1 cmd 5 uid' st)))) s ''calendar_event'' =
          peek2 0 (q_table ?e1) s ''calendar_event''
          + learning_rate ?e1 * (fst (calculate_reward ?e1 (rated 5 ?it)) - peek2 0 (q_table ?e1) s ''calendar_event'')"
    using q_value_update_q_value [of ?e1 "rated 5 ?it" s "''calendar_event''"] by (simp only: sa if_True simp_thms)
  then have q1: "peek2 0 (q_table (fst (snd (record_feedback t1 cmd 5 uid' st)))) s ''calendar_event'' = 1 / 10"
    by (simp only: r1 old) simp
  show ?thesis using d rec r q0 q1 by simp
qed


theorem scenario_reward_and_value_witness:
  "recent_interactions (fst (snd
      (record_feedback ''t1'' ''schedule meeting tomorrow at 4pm'' 5 ''default''
          (log_interaction ''t0'' 10 ''schedule meeting tomorrow at 4pm'' ''calendar_event''
             ''ok'' ''default'' (new_engine (1 / 10) (1 / 10), empty_disk)))))
     = [rated 5 (new_interaction ''t0'' 10 ''schedule meeting tomorrow at 4pm''
                   ''calendar_event'' ''ok'' ''default'')]
   \<and> peek2 0
        (q_table (fst (snd
           (record_feedback ''t1'' ''schedule meeting tomorrow at 4pm'' 5 ''default''
              (log_interaction ''t0'' 10 ''schedule meeting tomorrow at 4pm'' ''calendar_event''
                 ''ok'' ''default'' (new_engine (1 / 10) (1 / 10), empty_disk))))))
        ''calendar|medium|morning'' ''calendar_event'' = 1 / 10"
proof -
  have s: "get_state_features 10 ''schedule meeting tomorrow at 4pm'' None = ''calendar|medium|morning''"
    by (simp add: get_state_features_def py_split_def is_space_def py_lower_def lower_char_def
          any_word_in_def Let_def)
  show ?thesis
    using scenario_reward_and_value [where ?t0.0 = "''t0''" and ?t1.0 = "''t1''" and hour = 10
        and res = "''ok''" and uid = "''default''" and uid' = "''default''" and eps = "1 / 10"
        and dsk = empty_disk and rnd = 0 and pick = 0]
    by (simp only: s) simp
qed

subsection \<open>The decision\<close>

lemma rl_prediction_engine: "snd (rl_prediction eng s rnd pick bi bc) = eng"
proof (cases "map_of (q_table eng) s")
  case None
  then show ?thesis by (simp add: rl_prediction_def)
next
  case (Some inner)
  then have "dd_get [] (q_table eng) s = (inner, q_table eng)"
    by (rule dd_get_present)
  with Some show ?thesis by (simp add: rl_prediction_def split: list.splits)
qed

text \<open>
  C9. A decision leaves the engine as it was: value store, visit counters, success
  histories, user preferences, interaction records and parameters. The only
  \<^verbatim>\<open>defaultdict\<close> read of \<^verbatim>\<open>get_enhanced_intent\<close> is guarded by \<^verbatim>\<open>state in self.q_table\<close>,
  so it inserts nothing. (The method touches no file.)
\<close>

theorem decision_mutates_nothing:
  "snd (get_enhanced_intent eng hour rnd pick base cmd) = eng"
proof -
  obtain bi bc where b: "base = (bi, bc)" by (cases base)
  obtain ri rc e1 where r: "rl_prediction eng (get_state_features hour cmd None) rnd pick bi bc = ((ri, rc), e1)"
    by (metis prod.exhaust)
  have "e1 = eng"
    using rl_prediction_engine [of eng "get_state_features hour cmd None" rnd pick bi bc] r by simp
  then show ?thesis by (simp add: get_enhanced_intent_def b r)
qed

text \<open>
  C4. The final decision follows the precedence: the base prediction when its confidence
  exceeds \<open>0.8\<close>; otherwise the candidate of the learned policy when the base confidence
  is below \<open>0.3\<close> and the candidate's exceeds \<open>0.6\<close>; otherwise the base prediction. As a
  consequence the answer differs from the base prediction only when the base confidence
  is below \<open>0.3\<close>, the draw did not explore, and the state has stored values, and then it is
  the first action of maximal value with confidence \<open>0.8\<close>.
\<close>

theorem arbitration_precedence:
  fixes eng :: engine and hour pick :: nat and rnd bc :: real and bi cmd :: string
  defines "rl \<equiv> fst (rl_prediction eng (get_state_features hour cmd None) rnd pick bi bc)"
  defines "final \<equiv> fst (get_enhanced_intent eng hour rnd pick (bi, bc) cmd)"
  shows
    "final =
       (if bc > 8 / 10 then (bi, bc)
        else if bc < 3 / 10 \<and> snd rl > 6 / 10 then rl
        else (bi, bc))
     \<and> (final \<noteq> (bi, bc) \<longrightarrow>
          bc < 3 / 10 \<and> \<not> rnd < epsilon eng
          \<and> (\<exists>x xs. map_of (q_table eng) (get_state_features hour cmd None) = Some (x # xs)
                \<and> final = (fst (max_by_value x xs), 8 / 10)))"
proof -
  let ?s = "get_state_features hour cmd None"
  obtain ri rc e1 where r: "rl_prediction eng ?s rnd pick bi bc = ((ri, rc), e1)"
    by (metis prod.exhaust)
  have 1: "final =
       (if bc > 8 / 10 then (bi, bc)
        else if bc < 3 / 10 \<and> snd rl > 6 / 10 then rl
        else (bi, bc))"
    by (simp add: final_def rl_def get_enhanced_intent_def r)
  have 2: "bc < 3 / 10 \<and> \<not> rnd < epsilon eng
          \<and> (\<exists>x xs. map_of (q_table eng) ?s = Some (x # xs)
                \<and> final = (fst (max_by_value x xs), 8 / 10))"
    if ne: "final \<noteq> (bi, bc)"
  proof -
    from ne 1 have c: "bc < 3 / 10" "snd rl > 6 / 10" "final = rl"
      by (auto split: if_splits)
    show ?thesis
    proof (cases "map_of (q_table eng) ?s")
      case None
      then have "rl = (bi, bc)" by (simp add: rl_def rl_prediction_def)
      with c show ?thesis by simp
    next
      case (Some inner)
      then have g: "dd_get [] (q_table eng) ?s = (inner, q_table eng)"
        by (rule dd_get_present)
      show ?thesis
      proof (cases "rnd < epsilon eng")
        case True
        then have "snd rl = 5 / 10" by (simp add: rl_def rl_prediction_def Some g)
        with c show ?thesis by simp
      next
        case False
        show ?thesis
        proof (cases inner)
          case Nil
          then have "rl = (bi, bc)" using False by (simp add: rl_def rl_prediction_def Some g)
          with c show ?thesis by simp
        next
          case (Cons x xs)
          then have "rl = (fst (max_by_value x xs), 8 / 10)"
            using False by (simp add: rl_def rl_prediction_def Some g)
          with c False Some Cons show ?thesis by simp
        qed
      qed
    qed
  qed
  show ?thesis using 1 2 by blast
qed

theorem arbitration_precedence_witness:
  "fst (get_enhanced_intent
          ((new_engine (1 / 10) (1 / 10))
             \<lparr>q_table := [(''morning|search|short'', [(''send_email'', 2 / 10), (''web_search'', 5 / 10)])]\<rparr>)
          10 (9 / 10) 0 (''unknown'', 1 / 10) ''find cats'')
     = (''web_search'', 8 / 10)
   \<and> fst (get_enhanced_intent
          ((new_engine (1 / 10) (1 / 10))
             \<lparr>q_table := [(''morning|search|short'', [(''send_email'', 2 / 10), (''web_search'', 5 / 10)])]\<rparr>)
          10 (9 / 10) 0 (''rag_query'', 95 / 100) ''find cats'')
     = (''rag_query'', 95 / 100)"
proof -
  let ?e = "(new_engine (1 / 10) (1 / 10))
             \<lparr>q_table := [(''morning|search|short'', [(''send_email'', 2 / 10), (''web_search'', 5 / 10)])]\<rparr>"
  have s: "get_state_features 10 ''find cats'' None = ''morning|search|short''"
    by (simp add: get_state_features_def py_split_def is_space_def py_lower_def lower_char_def
          any_word_in_def Let_def)
  have rl: "fst (rl_prediction ?e ''morning|search|short'' (9 / 10) 0 ''unknown'' (1 / 10))
            = (''web_search'', 8 / 10)"
    by (simp add: rl_prediction_def new_engine_def dd_get_def)
  have rl_conf: "snd (fst (rl_prediction ?e ''morning|search|short'' (9 / 10) 0 ''unknown'' (1 / 10)))
            = 8 / 10"
    by (simp only: rl snd_conv)
  have "fst (get_enhanced_intent ?e 10 (9 / 10) 0 (''unknown'', 1 / 10) ''find cats'') =
          (if (1 / 10 :: real) > 8 / 10 then (''unknown'', 1 / 10)
           else if (1 / 10 :: real) < 3 / 10
                   \<and> snd (fst (rl_prediction ?e (get_state_features 10 ''find cats'' None)
                                  (9 / 10) 0 ''unknown'' (1 / 10))) > 6 / 10
                then fst (rl_prediction ?e (get_state_features 10 ''find cats'' None)
                            (9 / 10) 0 ''unknown'' (1 / 10))
                else (''unknown'', 1 / 10))"
    by (rule conjunct1 [OF arbitration_precedence])
  then have a: "fst (get_enhanced_intent ?e 10 (9 / 10) 0 (''unknown'', 1 / 10) ''find cats'')
                  = (''web_search'', 8 / 10)"
    unfolding s rl_conf unfolding rl by simp
  have "fst (get_enhanced_intent ?e 10 (9 / 10) 0 (''rag_query'', 95 / 100) ''find cats'') =
          (if (95 / 100 :: real) > 8 / 10 then (''rag_query'', 95 / 100)
           else if (95 / 100 :: real) < 3 / 10
                   \<and> snd (fst (rl_prediction ?e (get_state_features 10 ''find cats'' None)
                                  (9 / 10) 0 ''rag_query'' (95 / 100))) > 6 / 10
                then fst (rl_prediction ?e (get_state_features 10 ''find cats'' None)
                            (9 / 10) 0 ''rag_query'' (95 / 100))
                else (''rag_query'', 95 / 100))"
    by (rule conjunct1 [OF arbitration_precedence])
  then have b: "fst (get_enhanced_intent ?e 10 (9 / 10) 0 (''rag_query'', 95 / 100) ''find cats'')
                  = (''rag_query'', 95 / 100)"
    by simp
  show ?thesis using a b by (rule conjI)
qed


subsection \<open>Feedback: resolution, rejection and the interaction records\<close>

text \<open>
  What a recorded feedback does to everything the engine holds, read through lookups with
  default: one stored value and one count change, one history and one preference list
  grow, the file of feedbacks gets one more entry.
\<close>

lemma find_target_Some_unfolded:
  "find_target buf arg = Some k \<longleftrightarrow>
     k < length buf
     \<and> (command (buf ! k) = arg \<or> interaction_id (buf ! k) = Some arg)
     \<and> (\<forall>j. k < j \<and> j < length buf \<longrightarrow>
            command (buf ! j) \<noteq> arg \<and> interaction_id (buf ! j) \<noteq> Some arg)"
  by (simp add: find_target_Some_iff matches_def)

lemma find_target_None_unfolded:
  "find_target buf arg = None \<longleftrightarrow>
     (\<forall>it \<in> set buf. command it \<noteq> arg \<and> interaction_id it \<noteq> Some arg)"
  by (simp add: find_target_None_iff matches_def)

lemma peek2_snoc_empty:
  "map_of t s = None \<Longrightarrow> peek2 dflt (t @ [(s, [])]) s' a' = peek2 dflt t s' a'"
  by (auto simp: peek2_def map_add_def split: option.splits)

lemma peek2_add_preference:
  "peek2 [] (add_preference up u i r) u' i' =
     (if u' = u \<and> i' = i then peek2 [] up u i @ [r] else peek2 [] up u' i')"
proof (cases "map_of up u")
  case None
  then have "add_preference up u i r = dd2_set (up @ [(u, [])]) u i [r]"
    by (simp add: add_preference_def dd_get_def)
  moreover from None have "peek2 [] up u i = []"
    by (simp add: peek2_def)
  ultimately show ?thesis
    using None by (simp add: peek2_dd2_set peek2_snoc_empty)
next
  case (Some prefs)
  then have "add_preference up u i r =
               dd2_set up u i ((case map_of prefs i of None \<Rightarrow> [] | Some rs \<Rightarrow> rs) @ [r])"
    by (simp add: add_preference_def dd_get_def)
  moreover from Some have "peek2 [] up u i = (case map_of prefs i of None \<Rightarrow> [] | Some rs \<Rightarrow> rs)"
    by (simp add: peek2_def)
  ultimately show ?thesis
    by (simp add: peek2_dd2_set)
qed

lemma calculate_reward_same_store:
  "intent_success_rates e' = intent_success_rates e \<Longrightarrow>
   state_action_counts e' = state_action_counts e \<Longrightarrow>
     fst (calculate_reward e' it) = fst (calculate_reward e it)"
  by (simp add: calculate_reward_value)

lemma disk_after_feedback:
  assumes "1 \<le> rating" "rating \<le> 5" "find_target (recent_interactions eng) c = Some k"
  shows "snd (snd (record_feedback now c rating uid (eng, dsk))) =
           dsk\<lparr>feedback_file :=
                 Some ((case feedback_file dsk of None \<Rightarrow> [] | Some feedbacks \<Rightarrow> feedbacks) @
                       [\<lparr>fb_timestamp = now, fb_command = command (recent_interactions eng ! k),
                         fb_intent = intent (recent_interactions eng ! k), fb_rating = rating,
                         fb_user_id = uid, fb_state = state (recent_interactions eng ! k)\<rparr>])\<rparr>"
  using assms by (simp add: record_feedback_recorded save_feedback_def)

lemma recorded_feedback_effect:
  fixes eng :: engine and dsk :: disk and now c uid :: string and rating :: int and k :: nat
  assumes "1 \<le> rating" "rating \<le> 5" "find_target (recent_interactions eng) c = Some k"
  defines "it \<equiv> recent_interactions eng ! k"
  defines "after \<equiv> fst (snd (record_feedback now c rating uid (eng, dsk)))"
  shows "peek2 0 (q_table after) s a =
           (if s = state it \<and> a = intent it
            then peek2 0 (q_table eng) s a
                 + learning_rate eng * (fst (calculate_reward eng (rated rating it)) - peek2 0 (q_table eng) s a)
            else peek2 0 (q_table eng) s a)"
    and "peek2 0 (state_action_counts after) s a =
           (if s = state it \<and> a = intent it then peek2 0 (state_action_counts eng) s a + 1
            else peek2 0 (state_action_counts eng) s a)"
    and "map_of (intent_success_rates after) i =
           (if i = intent it
            then Some ((case map_of (intent_success_rates eng) i of None \<Rightarrow> [] | Some rates \<Rightarrow> rates)
                       @ [3 \<le> rating])
            else map_of (intent_success_rates eng) i)"
    and "peek2 [] (user_preferences after) u i =
           (if u = uid \<and> i = intent it then peek2 [] (user_preferences eng) u i @ [rating]
            else peek2 [] (user_preferences eng) u i)"
proof -
  let ?target = "rated rating it"
  let ?e1 = "eng\<lparr>recent_interactions := (recent_interactions eng)[k := ?target]\<rparr>"
  have tgt: "state ?target = state it" "intent ?target = intent it"
    by (simp_all add: rated_def)
  have rw: "fst (calculate_reward ?e1 ?target) = fst (calculate_reward eng ?target)"
    by (rule calculate_reward_same_store) simp_all
  have q: "q_table after = q_table (update_q_value ?e1 ?target)"
    unfolding after_def it_def using q_table_after_feedback [OF assms(1-3)] by simp
  have c: "state_action_counts after = state_action_counts (update_q_value ?e1 ?target)"
    unfolding after_def it_def using after_feedback_fields(3) [OF assms(1-3)] by simp
  have h: "intent_success_rates after =
             append_success (intent_success_rates eng) (intent it) (3 \<le> rating)"
    unfolding after_def it_def using after_feedback_fields(1) [OF assms(1-3)] by simp
  have p: "user_preferences after = add_preference (user_preferences eng) uid (intent it) rating"
    unfolding after_def it_def using after_feedback_fields(2) [OF assms(1-3)] by simp
  show "peek2 0 (q_table after) s a =
           (if s = state it \<and> a = intent it
            then peek2 0 (q_table eng) s a
                 + learning_rate eng * (fst (calculate_reward eng (rated rating it)) - peek2 0 (q_table eng) s a)
            else peek2 0 (q_table eng) s a)"
    by (simp add: q q_value_update_q_value tgt rw)
  show "peek2 0 (state_action_counts after) s a =
           (if s = state it \<and> a = intent it then peek2 0 (state_action_counts eng) s a + 1
            else peek2 0 (state_action_counts eng) s a)"
    by (simp add: c count_update_q_value tgt)
  show "map_of (intent_success_rates after) i =
           (if i = intent it
            then Some ((case map_of (intent_success_rates eng) i of None \<Rightarrow> [] | Some rates \<Rightarrow> rates)
                       @ [3 \<le> rating])
            else map_of (intent_success_rates eng) i)"
    by (simp add: h map_of_append_success)
  show "peek2 [] (user_preferences after) u i =
           (if u = uid \<and> i = intent it then peek2 [] (user_preferences eng) u i @ [rating]
            else peek2 [] (user_preferences eng) u i)"
    by (simp add: p peek2_add_preference)
qed


lemma recent_after_load_feedback_history:
  "recent_interactions (load_feedback_history eng dsk) = recent_interactions eng"
proof -
  have keep: "recent_interactions (fold (\<lambda>fb e.
                  e\<lparr>intent_success_rates :=
                       append_success (intent_success_rates e) (fb_intent fb) (fb_rating fb \<ge> 3),
                    user_preferences :=
                       remember_preference (user_preferences e) (fb_user_id fb) (fb_intent fb)
                         (fb_rating fb)\<rparr>)
               fbs e) = recent_interactions e" for fbs :: "feedback_entry list" and e
    by (induction fbs arbitrary: e) simp_all
  show ?thesis by (simp add: load_feedback_history_def keep split: option.splits)
qed

text \<open>
  C6. The target of a feedback is the most recent interaction of the deque whose command
  text equals the argument or whose interaction id equals it: \<^const>\<open>find_target\<close> returns
  position \<open>k\<close> exactly when the record at \<open>k\<close> has that command text or that id and no
  later record has, and returns nothing exactly when no record has. The record at \<open>k\<close> is
  the one a recorded feedback rates, and its state and intent the ones whose stored
  value, count, history and preference list it updates; nothing else changes. In
  particular, after two decisions with the same command text and intents \<open>A\<close> then \<open>B\<close>,
  a feedback by that text rates the \<open>B\<close> record and leaves the \<open>A\<close> record and all older
  ones as they were; the value of (state of the \<open>B\<close> record, \<open>B\<close>) moves by the learning
  rate towards the reward and its count grows by one, the history of \<open>B\<close> and the user's
  preference list for \<open>B\<close> get one more element, and every other value, count, history
  and preference list is what it was before.
\<close>

theorem feedback_resolution_recency:
  fixes eng :: engine and dsk :: disk
    and t1 t2 c A B r1 r2 u1 u2 now uid arg :: string and h1 h2 k :: nat and rating :: int
    and buf :: "interaction list"
  defines "st \<equiv> log_interaction t2 h2 c B r2 u2 (log_interaction t1 h1 c A r1 u1 (eng, dsk))"
  defines "after \<equiv> fst (snd (record_feedback now c rating uid st))"
  defines "recA \<equiv> new_interaction t1 h1 c A r1 u1"
  defines "recB \<equiv> new_interaction t2 h2 c B r2 u2"
  defines "sB \<equiv> get_state_features h2 c None"
  defines "target \<equiv> recent_interactions eng ! k"
  defines "after_k \<equiv> fst (snd (record_feedback now arg rating uid (eng, dsk)))"
  assumes "1 \<le> rating" and "rating \<le> 5"
  shows
    "(find_target buf arg = Some k \<longleftrightarrow>
        k < length buf
        \<and> (command (buf ! k) = arg \<or> interaction_id (buf ! k) = Some arg)
        \<and> (\<forall>j. k < j \<and> j < length buf \<longrightarrow>
              command (buf ! j) \<noteq> arg \<and> interaction_id (buf ! j) \<noteq> Some arg))
     \<and> (find_target buf arg = None \<longleftrightarrow>
          (\<forall>it \<in> set buf. command it \<noteq> arg \<and> interaction_id it \<noteq> Some arg))
     \<and> (find_target (recent_interactions eng) arg = Some k \<longrightarrow>
          recent_interactions after_k =
            (recent_interactions eng)
              [k := target\<lparr>feedback_score := Some rating, success := Some (3 \<le> rating)\<rparr>]
          \<and> (\<forall>s a. peek2 0 (q_table after_k) s a =
                (if s = state target \<and> a = intent target
                 then peek2 0 (q_table eng) s a
                      + learning_rate eng
                        * (fst (calculate_reward eng
                                  (target\<lparr>feedback_score := Some rating, success := Some (3 \<le> rating)\<rparr>))
                           - peek2 0 (q_table eng) s a)
                 else peek2 0 (q_table eng) s a))
          \<and> (\<forall>s a. peek2 0 (state_action_counts after_k) s a =
                (if s = state target \<and> a = intent target
                 then peek2 0 (state_action_counts eng) s a + 1
                 else peek2 0 (state_action_counts eng) s a))
          \<and> (\<forall>i. map_of (intent_success_rates after_k) i =
                (if i = intent target
                 then Some ((case map_of (intent_success_rates eng) i of
                               None \<Rightarrow> [] | Some rates \<Rightarrow> rates) @ [3 \<le> rating])
                 else map_of (intent_success_rates eng) i))
          \<and> (\<forall>u i. peek2 [] (user_preferences after_k) u i =
                (if u = uid \<and> i = intent target
                 then peek2 [] (user_preferences eng) u i @ [rating]
                 else peek2 [] (user_preferences eng) u i)))
     \<and> last (butlast (recent_interactions (fst st))) = recA
     \<and> last (recent_interactions (fst st)) = recB
     \<and> recent_interactions after =
          butlast (recent_interactions (fst st))
          @ [recB\<lparr>feedback_score := Some rating, success := Some (3 \<le> rating)\<rparr>]
     \<and> (\<forall>s a. peek2 0 (q_table after) s a =
           (if s = sB \<and> a = B
            then peek2 0 (q_table eng) s a
                 + learning_rate eng
                   * (fst (calculate_reward eng
                             (recB\<lparr>feedback_score := Some rating, success := Some (3 \<le> rating)\<rparr>))
                      - peek2 0 (q_table eng) s a)
            else peek2 0 (q_table eng) s a))
     \<and> (\<forall>s a. peek2 0 (state_action_counts after) s a =
           (if s = sB \<and> a = B then peek2 0 (state_action_counts eng) s a + 1
            else peek2 0 (state_action_counts eng) s a))
     \<and> (\<forall>i. map_of (intent_success_rates after) i =
           (if i = B
            then Some ((case map_of (intent_success_rates eng) i of
                          None \<Rightarrow> [] | Some rates \<Rightarrow> rates) @ [3 \<le> rating])
            else map_of (intent_success_rates eng) i))
     \<and> (\<forall>u i. peek2 [] (user_preferences after) u i =
           (if u = uid \<and> i = B then peek2 [] (user_preferences eng) u i @ [rating]
            else peek2 [] (user_preferences eng) u i))"
proof -
  note valid = assms(8,9)
  have r: "rated rating x = x\<lparr>feedback_score := Some rating, success := Some (3 \<le> rating)\<rparr>" for x
    by (simp add: rated_def)
  \<comment> \<open>the general effect at position \<open>k\<close>\<close>
  have general:
    "recent_interactions after_k = (recent_interactions eng)[k := rated rating target]
     \<and> (\<forall>s a. peek2 0 (q_table after_k) s a =
           (if s = state target \<and> a = intent target
            then peek2 0 (q_table eng) s a
                 + learning_rate eng
                   * (fst (calculate_reward eng (rated rating target)) - peek2 0 (q_table eng) s a)
            else peek2 0 (q_table eng) s a))
     \<and> (\<forall>s a. peek2 0 (state_action_counts after_k) s a =
           (if s = state target \<and> a = intent target
            then peek2 0 (state_action_counts eng) s a + 1
            else peek2 0 (state_action_counts eng) s a))
     \<and> (\<forall>i. map_of (intent_success_rates after_k) i =
           (if i = intent target
            then Some ((case map_of (intent_success_rates eng) i of
                          None \<Rightarrow> [] | Some rates \<Rightarrow> rates) @ [3 \<le> rating])
            else map_of (intent_success_rates eng) i))
     \<and> (\<forall>u i. peek2 [] (user_preferences after_k) u i =
           (if u = uid \<and> i = intent target
            then peek2 [] (user_preferences eng) u i @ [rating]
            else peek2 [] (user_preferences eng) u i))"
    if ft: "find_target (recent_interactions eng) arg = Some k"
    unfolding after_k_def target_def
    using recent_after_feedback [OF valid ft, of now uid dsk]
      recorded_feedback_effect [OF valid ft, of now uid dsk]
    by simp
  \<comment> \<open>the scenario\<close>
  obtain zs where zs: "deque_append 1000 (deque_append 1000 (recent_interactions eng) recA) recB
                        = zs @ [recA, recB]"
    using deque_append_twice [of 1000 "recent_interactions eng" recA recB] by auto
  have bufst: "recent_interactions (fst st) = zs @ [recA, recB]"
    using zs by (simp add: st_def log_interaction_def Let_def recA_def recB_def)
  have same: "q_table (fst st) = q_table eng" "state_action_counts (fst st) = state_action_counts eng"
    "intent_success_rates (fst st) = intent_success_rates eng"
    "user_preferences (fst st) = user_preferences eng" "learning_rate (fst st) = learning_rate eng"
    by (simp_all add: st_def log_interaction_def Let_def)
  have "command recB = c" by (simp add: recB_def new_interaction_def)
  then have ft: "find_target (recent_interactions (fst st)) c = Some (Suc (length zs))"
    using find_target_snoc [of "zs @ [recA]" recB c] by (simp add: bufst matches_def)
  have at: "recent_interactions (fst st) ! Suc (length zs) = recB"
    by (simp add: bufst nth_append)
  have sa: "state recB = sB" "intent recB = B"
    by (simp_all add: recB_def sB_def new_interaction_def)
  have rw: "fst (calculate_reward (fst st) x) = fst (calculate_reward eng x)" for x
    by (rule calculate_reward_same_store) (simp_all add: same)
  have s2: "recent_interactions after = zs @ [recA, rated rating recB]"
    unfolding after_def
    using recent_after_feedback [OF valid ft, of now uid "snd st"]
    by (simp add: at) (simp add: bufst list_update_append)
  note eff = recorded_feedback_effect [OF valid ft, of now uid "snd st", unfolded at sa same rw, simplified,
      folded after_def]
  show ?thesis
    using find_target_Some_unfolded [of buf arg k] find_target_None_unfolded [of buf arg]
      general bufst s2 eff
    by (simp add: butlast_append r)
qed


theorem feedback_resolution_recency_witness:
  "(1 :: int) \<le> 4 \<and> (4 :: int) \<le> 5
   \<and> find_target
        [new_interaction ''t1'' 9 ''open notes'' ''launch_app'' ''ok'' ''default'',
         new_interaction ''t2'' 10 ''open notes'' ''file_manage'' ''ok'' ''default'',
         new_interaction ''t3'' 11 ''find cats'' ''web_search'' ''ok'' ''default'']
        ''open notes'' = Some 1
   \<and> recent_interactions
       (fst (snd (record_feedback ''t4'' ''open notes'' 4 ''default''
        (((new_engine (1 / 10) (1 / 10))
          \<lparr>recent_interactions :=
             [new_interaction ''t1'' 9 ''open notes'' ''launch_app'' ''ok'' ''default'',
              new_interaction ''t2'' 10 ''open notes'' ''file_manage'' ''ok'' ''default'',
              new_interaction ''t3'' 11 ''find cats'' ''web_search'' ''ok'' ''default'']\<rparr>),
         empty_disk))))
     = [new_interaction ''t1'' 9 ''open notes'' ''launch_app'' ''ok'' ''default'',
        rated 4 (new_interaction ''t2'' 10 ''open notes'' ''file_manage'' ''ok'' ''default''),
        new_interaction ''t3'' 11 ''find cats'' ''web_search'' ''ok'' ''default'']
   \<and> peek2 0 (q_table
       (fst (snd (record_feedback ''t4'' ''open notes'' 4 ''default''
        (((new_engine (1 / 10) (1 / 10))
          \<lparr>recent_interactions :=
             [new_interaction ''t1'' 9 ''open notes'' ''launch_app'' ''ok'' ''default'',
              new_interaction ''t2'' 10 ''open notes'' ''file_manage'' ''ok'' ''default'',
              new_interaction ''t3'' 11 ''find cats'' ''web_search'' ''ok'' ''default'']\<rparr>),
         empty_disk)))))
       (get_state_features 10 ''open notes'' None) ''file_manage'' = 3 / 50
   \<and> peek2 0 (state_action_counts
       (fst (snd (record_feedback ''t4'' ''open notes'' 4 ''default''
        (((new_engine (1 / 10) (1 / 10))
          \<lparr>recent_interactions :=
             [new_interaction ''t1'' 9 ''open notes'' ''launch_app'' ''ok'' ''default'',
              new_interaction ''t2'' 10 ''open notes'' ''file_manage'' ''ok'' ''default'',
              new_interaction ''t3'' 11 ''find cats'' ''web_search'' ''ok'' ''default'']\<rparr>),
         empty_disk)))))
       (get_state_features 10 ''open notes'' None) ''file_manage'' = 1
   \<and> peek2 0 (q_table
       (fst (snd (record_feedback ''t4'' ''open notes'' 4 ''default''
        (((new_engine (1 / 10) (1 / 10))
          \<lparr>recent_interactions :=
             [new_interaction ''t1'' 9 ''open notes'' ''launch_app'' ''ok'' ''default'',
              new_interaction ''t2'' 10 ''open notes'' ''file_manage'' ''ok'' ''default'',
              new_interaction ''t3'' 11 ''find cats'' ''web_search'' ''ok'' ''default'']\<rparr>),
         empty_disk)))))
       (get_state_features 9 ''open notes'' None) ''launch_app'' = 0
   \<and> peek2 0 (state_action_counts
       (fst (snd (record_feedback ''t4'' ''open notes'' 4 ''default''
        (((new_engine (1 / 10) (1 / 10))
          \<lparr>recent_interactions :=
             [new_interaction ''t1'' 9 ''open notes'' ''launch_app'' ''ok'' ''default'',
              new_interaction ''t2'' 10 ''open notes'' ''file_manage'' ''ok'' ''default'',
              new_interaction ''t3'' 11 ''find cats'' ''web_search'' ''ok'' ''default'']\<rparr>),
         empty_disk)))))
       (get_state_features 9 ''open notes'' None) ''launch_app'' = 0
   \<and> map_of (intent_success_rates
       (fst (snd (record_feedback ''t4'' ''open notes'' 4 ''default''
        (((new_engine (1 / 10) (1 / 10))
          \<lparr>recent_interactions :=
             [new_interaction ''t1'' 9 ''open notes'' ''launch_app'' ''ok'' ''default'',
              new_interaction ''t2'' 10 ''open notes'' ''file_manage'' ''ok'' ''default'',
              new_interaction ''t3'' 11 ''find cats'' ''web_search'' ''ok'' ''default'']\<rparr>),
         empty_disk))))) ''file_manage'' = Some [True]
   \<and> map_of (intent_success_rates
       (fst (snd (record_feedback ''t4'' ''open notes'' 4 ''default''
        (((new_engine (1 / 10) (1 / 10))
          \<lparr>recent_interactions :=
             [new_interaction ''t1'' 9 ''open notes'' ''launch_app'' ''ok'' ''default'',
              new_interaction ''t2'' 10 ''open notes'' ''file_manage'' ''ok'' ''default'',
              new_interaction ''t3'' 11 ''find cats'' ''web_search'' ''ok'' ''default'']\<rparr>),
         empty_disk))))) ''launch_app'' = None"
proof -
  let ?a = "new_interaction ''t1'' 9 ''open notes'' ''launch_app'' ''ok'' ''default''"
  let ?b = "new_interaction ''t2'' 10 ''open notes'' ''file_manage'' ''ok'' ''default''"
  let ?c = "new_interaction ''t3'' 11 ''find cats'' ''web_search'' ''ok'' ''default''"
  let ?e = "(new_engine (1 / 10) (1 / 10))\<lparr>recent_interactions := [?a, ?b, ?c]\<rparr>"
  have v: "(1 :: int) \<le> 4" "(4 :: int) \<le> 5" by simp_all
  have fields: "command ?a = ''open notes''" "command ?b = ''open notes''" "command ?c = ''find cats''"
    "interaction_id ?a = None" "interaction_id ?b = None" "interaction_id ?c = None"
    "state ?b = get_state_features 10 ''open notes'' None" "intent ?b = ''file_manage''"
    by (simp_all add: new_interaction_def)
  note th = feedback_resolution_recency [OF v, where buf = "[?a, ?b, ?c]" and arg = "''open notes''"
      and k = 1 and eng = ?e and now = "''t4''" and uid = "''default''" and dsk = empty_disk
      and c = "''open notes''" and ?t1.0 = "''t1''" and ?t2.0 = "''t2''" and ?h1.0 = 9 and ?h2.0 = 10
      and A = "''launch_app''" and B = "''file_manage''" and ?r1.0 = "''ok''" and ?r2.0 = "''ok''"
      and ?u1.0 = "''default''" and ?u2.0 = "''default''"]
  have later: "\<forall>j. 1 < j \<and> j < length [?a, ?b, ?c] \<longrightarrow>
                 command ([?a, ?b, ?c] ! j) \<noteq> ''open notes''
                 \<and> interaction_id ([?a, ?b, ?c] ! j) \<noteq> Some ''open notes''"
  proof (intro allI impI)
    fix j :: nat
    assume "1 < j \<and> j < length [?a, ?b, ?c]"
    then have "j = 2" by simp
    then show "command ([?a, ?b, ?c] ! j) \<noteq> ''open notes''
                 \<and> interaction_id ([?a, ?b, ?c] ! j) \<noteq> Some ''open notes''"
      by (simp add: fields)
  qed
  from th have "find_target [?a, ?b, ?c] ''open notes'' = Some 1 \<longleftrightarrow>
      1 < length [?a, ?b, ?c]
      \<and> (command ([?a, ?b, ?c] ! 1) = ''open notes'' \<or> interaction_id ([?a, ?b, ?c] ! 1) = Some ''open notes'')
      \<and> (\<forall>j. 1 < j \<and> j < length [?a, ?b, ?c] \<longrightarrow>
             command ([?a, ?b, ?c] ! j) \<noteq> ''open notes''
             \<and> interaction_id ([?a, ?b, ?c] ! j) \<noteq> Some ''open notes'')"
    by (rule conjunct1)
  with later have f: "find_target [?a, ?b, ?c] ''open notes'' = Some 1"
    by (simp add: fields)
  have ri: "recent_interactions ?e = [?a, ?b, ?c]" by (simp add: new_engine_def)
  have rew: "fst (calculate_reward ?e (?b\<lparr>feedback_score := Some 4, success := Some (3 \<le> (4 :: int))\<rparr>))
               = 6 / 10"
    by (simp add: calculate_reward_value reward_formula_def base_reward_of_def add_success_bonus_def
          exploration_bonus_of_def clamp_reward_def new_engine_def peek2_def new_interaction_def)
  have store: "peek2 0 (q_table ?e) s a = 0" "peek2 0 (state_action_counts ?e) s a = 0"
    "map_of (intent_success_rates ?e) i = None" "learning_rate ?e = 1 / 10" for s a i
    by (simp_all add: new_engine_def peek2_def)
  from th f have eff:
    "recent_interactions (fst (snd (record_feedback ''t4'' ''open notes'' 4 ''default'' (?e, empty_disk))))
       = (recent_interactions ?e)[1 := (recent_interactions ?e ! 1)\<lparr>feedback_score := Some 4, success := Some (3 \<le> (4 :: int))\<rparr>]"
    "\<forall>s a. peek2 0 (q_table (fst (snd (record_feedback ''t4'' ''open notes'' 4 ''default'' (?e, empty_disk))))) s a =
                (if s = state (recent_interactions ?e ! 1) \<and> a = intent (recent_interactions ?e ! 1)
                 then peek2 0 (q_table ?e) s a
                      + learning_rate ?e
                        * (fst (calculate_reward ?e
                                  ((recent_interactions ?e ! 1)\<lparr>feedback_score := Some 4, success := Some (3 \<le> (4 :: int))\<rparr>))
                           - peek2 0 (q_table ?e) s a)
                 else peek2 0 (q_table ?e) s a)"
    "\<forall>s a. peek2 0 (state_action_counts (fst (snd (record_feedback ''t4'' ''open notes'' 4 ''default'' (?e, empty_disk))))) s a =
                (if s = state (recent_interactions ?e ! 1) \<and> a = intent (recent_interactions ?e ! 1)
                 then peek2 0 (state_action_counts ?e) s a + 1
                 else peek2 0 (state_action_counts ?e) s a)"
    "\<forall>i. map_of (intent_success_rates (fst (snd (record_feedback ''t4'' ''open notes'' 4 ''default'' (?e, empty_disk))))) i =
                (if i = intent (recent_interactions ?e ! 1)
                 then Some ((case map_of (intent_success_rates ?e) i of
                               None \<Rightarrow> [] | Some rates \<Rightarrow> rates) @ [3 \<le> (4 :: int)])
                 else map_of (intent_success_rates ?e) i)"
    unfolding ri by blast+
  have at: "[?a, ?b, ?c] ! 1 = ?b" by simp
  show ?thesis
    using v f eff [unfolded ri at fields(7,8) store rew]
    by (simp add: rated_def)
qed


text \<open>
  C7, as the spec has it. A feedback with rating 6, and one for a command that was never
  logged, are not answered with a status: the call returns \<^verbatim>\<open>None\<close>, the value it also
  returns when the feedback (here rating 4 for the logged command) is recorded.
\<close>

theorem rejected_feedback_status_counterexample:
  "fst (record_feedback ''t1'' ''open notes'' 6 ''default''
          (log_interaction ''t0'' 10 ''open notes'' ''launch_app'' ''ok'' ''default''
             (new_engine (1 / 10) (1 / 10), empty_disk))) = PyNone
   \<and> fst (record_feedback ''t1'' ''close notes'' 4 ''default''
          (log_interaction ''t0'' 10 ''open notes'' ''launch_app'' ''ok'' ''default''
             (new_engine (1 / 10) (1 / 10), empty_disk))) = PyNone
   \<and> fst (record_feedback ''t1'' ''open notes'' 4 ''default''
          (log_interaction ''t0'' 10 ''open notes'' ''launch_app'' ''ok'' ''default''
             (new_engine (1 / 10) (1 / 10), empty_disk))) = PyNone
   \<and> feedback_score (last (recent_interactions (fst (snd
        (record_feedback ''t1'' ''open notes'' 4 ''default''
          (log_interaction ''t0'' 10 ''open notes'' ''launch_app'' ''ok'' ''default''
             (new_engine (1 / 10) (1 / 10), empty_disk))))))) = Some 4
   \<and> fst (record_feedback ''t1'' ''open notes'' 6 ''default''
          (log_interaction ''t0'' 10 ''open notes'' ''launch_app'' ''ok'' ''default''
             (new_engine (1 / 10) (1 / 10), empty_disk))) \<noteq> PyStr ''InvalidRating''
   \<and> fst (record_feedback ''t1'' ''close notes'' 4 ''default''
          (log_interaction ''t0'' 10 ''open notes'' ''launch_app'' ''ok'' ''default''
             (new_engine (1 / 10) (1 / 10), empty_disk))) \<noteq> PyStr ''NotFound''"
  by (simp add: record_feedback_def log_interaction_def new_interaction_def new_engine_def
        deque_append_def find_target_def matches_def Let_def update_q_value_frame)

text \<open>
  C7, amended. \<^verbatim>\<open>record_feedback\<close> returns \<^verbatim>\<open>None\<close> on every path, and it leaves the engine
  (value store, counters, histories, preferences, interaction records) and the files
  exactly as they were if and only if the rating is outside \<open>[1, 5]\<close> or no interaction of
  the deque has the given command text or interaction id.
\<close>

theorem feedback_mutates_only_when_recorded:
  "fst (record_feedback now c rating uid (eng, dsk)) = PyNone
   \<and> (snd (record_feedback now c rating uid (eng, dsk)) = (eng, dsk)
        \<longleftrightarrow> \<not> (1 \<le> rating \<and> rating \<le> 5)
            \<or> (\<forall>it \<in> set (recent_interactions eng).
                  command it \<noteq> c \<and> interaction_id it \<noteq> Some c))"
proof (cases "1 \<le> rating \<and> rating \<le> 5")
  case False
  then have "record_feedback now c rating uid (eng, dsk) = (PyNone, eng, dsk)"
    by (rule record_feedback_invalid)
  with False show ?thesis by simp
next
  case valid: True
  show ?thesis
  proof (cases "find_target (recent_interactions eng) c")
    case None
    then have "\<forall>it \<in> set (recent_interactions eng). command it \<noteq> c \<and> interaction_id it \<noteq> Some c"
      by (simp add: find_target_None_unfolded)
    moreover have "record_feedback now c rating uid (eng, dsk) = (PyNone, eng, dsk)"
      using valid None by (simp add: record_feedback_not_found)
    ultimately show ?thesis by simp
  next
    case (Some k)
    then have m: "\<not> (\<forall>it \<in> set (recent_interactions eng). command it \<noteq> c \<and> interaction_id it \<noteq> Some c)"
      using find_target_None_unfolded [of "recent_interactions eng" c] by simp
    have "feedback_file (snd (snd (record_feedback now c rating uid (eng, dsk)))) \<noteq> feedback_file dsk"
      using valid Some by (cases "feedback_file dsk") (simp_all add: disk_after_feedback)
    then have "snd (record_feedback now c rating uid (eng, dsk)) \<noteq> (eng, dsk)"
      by (auto simp: prod_eq_iff)
    moreover have "fst (record_feedback now c rating uid (eng, dsk)) = PyNone"
      using valid Some by (simp add: record_feedback_recorded)
    ultimately show ?thesis using valid m by simp
  qed
qed

theorem feedback_mutates_only_when_recorded_witness:
  "snd (record_feedback ''t1'' ''open notes'' 6 ''default''
     (fst (log_interaction ''t0'' 10 ''open notes'' ''launch_app'' ''ok'' ''default''
             (new_engine (1 / 10) (1 / 10), empty_disk)),
      snd (log_interaction ''t0'' 10 ''open notes'' ''launch_app'' ''ok'' ''default''
             (new_engine (1 / 10) (1 / 10), empty_disk))))
   = log_interaction ''t0'' 10 ''open notes'' ''launch_app'' ''ok'' ''default''
        (new_engine (1 / 10) (1 / 10), empty_disk)
   \<and> snd (record_feedback ''t1'' ''close notes'' 4 ''default''
     (fst (log_interaction ''t0'' 10 ''open notes'' ''launch_app'' ''ok'' ''default''
             (new_engine (1 / 10) (1 / 10), empty_disk)),
      snd (log_interaction ''t0'' 10 ''open notes'' ''launch_app'' ''ok'' ''default''
             (new_engine (1 / 10) (1 / 10), empty_disk))))
   = log_interaction ''t0'' 10 ''open notes'' ''launch_app'' ''ok'' ''default''
        (new_engine (1 / 10) (1 / 10), empty_disk)
   \<and> snd (record_feedback ''t1'' ''open notes'' 4 ''default''
     (fst (log_interaction ''t0'' 10 ''open notes'' ''launch_app'' ''ok'' ''default''
             (new_engine (1 / 10) (1 / 10), empty_disk)),
      snd (log_interaction ''t0'' 10 ''open notes'' ''launch_app'' ''ok'' ''default''
             (new_engine (1 / 10) (1 / 10), empty_disk))))
   \<noteq> log_interaction ''t0'' 10 ''open notes'' ''launch_app'' ''ok'' ''default''
        (new_engine (1 / 10) (1 / 10), empty_disk)"
proof -
  let ?st = "log_interaction ''t0'' 10 ''open notes'' ''launch_app'' ''ok'' ''default''
               (new_engine (1 / 10) (1 / 10), empty_disk)"
  have buf: "recent_interactions (fst ?st)
               = [new_interaction ''t0'' 10 ''open notes'' ''launch_app'' ''ok'' ''default'']"
    by (simp add: log_interaction_def new_engine_def deque_append_def Let_def)
  have a: "snd (record_feedback ''t1'' ''open notes'' 6 ''default'' (fst ?st, snd ?st)) = ?st"
    using feedback_mutates_only_when_recorded [of "''t1''" "''open notes''" 6 "''default''" "fst ?st" "snd ?st"]
    by simp
  have b: "snd (record_feedback ''t1'' ''close notes'' 4 ''default'' (fst ?st, snd ?st)) = ?st"
    using feedback_mutates_only_when_recorded [of "''t1''" "''close notes''" 4 "''default''" "fst ?st" "snd ?st"]
    by (simp add: buf new_interaction_def)
  have c: "snd (record_feedback ''t1'' ''open notes'' 4 ''default'' (fst ?st, snd ?st)) \<noteq> ?st"
    using feedback_mutates_only_when_recorded [of "''t1''" "''open notes''" 4 "''default''" "fst ?st" "snd ?st"]
    by (simp add: buf new_interaction_def)
  show ?thesis using a b c by blast
qed


text \<open>
  C8, as the spec has it. The claim that outcome and feedback score are written once
  fails: a second feedback that resolves to the same record overwrites both.
\<close>

theorem feedback_write_once_counterexample:
  "feedback_score (last (recent_interactions (fst (snd
     (record_feedback ''t1'' ''open notes'' 5 ''default''
        (log_interaction ''t0'' 10 ''open notes'' ''launch_app'' ''ok'' ''default''
           (new_engine (1 / 10) (1 / 10), empty_disk))))))) = Some 5
   \<and> feedback_score (last (recent_interactions (fst (snd
     (record_feedback ''t2'' ''open notes'' 1 ''default''
        (snd (record_feedback ''t1'' ''open notes'' 5 ''default''
           (log_interaction ''t0'' 10 ''open notes'' ''launch_app'' ''ok'' ''default''
              (new_engine (1 / 10) (1 / 10), empty_disk))))))))) = Some 1
   \<and> success (last (recent_interactions (fst (snd
     (record_feedback ''t2'' ''open notes'' 1 ''default''
        (snd (record_feedback ''t1'' ''open notes'' 5 ''default''
           (log_interaction ''t0'' 10 ''open notes'' ''launch_app'' ''ok'' ''default''
              (new_engine (1 / 10) (1 / 10), empty_disk))))))))) = Some False"
  by (simp add: record_feedback_def log_interaction_def new_interaction_def new_engine_def deque_append_def
        find_target_def matches_def Let_def update_q_value_frame)


text \<open>
  C8, amended. A record is created with outcome and feedback score unset. Logging a
  decision appends the new record and keeps the older ones as they are (without the
  oldest when the deque is full); a decision, the two loads and a rejected feedback leave
  the deque as it is. A recorded feedback sets the feedback score of the record it
  resolves to to the rating and its outcome to \<open>rating \<ge> 3\<close>, whatever the two fields held
  before, and leaves every other record of the deque, and every other field, as it was.
\<close>

theorem feedback_fields_written_by_feedback_only:
  "success (new_interaction t0 hour cmd chosen res u0) = None
   \<and> feedback_score (new_interaction t0 hour cmd chosen res u0) = None
   \<and> recent_interactions (fst (log_interaction t0 hour cmd chosen res u0 (eng, dsk))) =
       (if length (recent_interactions eng) < 1000 then recent_interactions eng
        else tl (recent_interactions eng)) @ [new_interaction t0 hour cmd chosen res u0]
   \<and> recent_interactions (snd (get_enhanced_intent eng hour rnd pick base cmd))
       = recent_interactions eng
   \<and> recent_interactions (load_model eng dsk) = recent_interactions eng
   \<and> recent_interactions (load_feedback_history eng dsk) = recent_interactions eng
   \<and> (\<not> (1 \<le> rating \<and> rating \<le> 5) \<or> find_target (recent_interactions eng) c = None \<longrightarrow>
        recent_interactions (fst (snd (record_feedback now c rating uid (eng, dsk))))
          = recent_interactions eng)
   \<and> (1 \<le> rating \<and> rating \<le> 5 \<and> find_target (recent_interactions eng) c = Some k \<longrightarrow>
        recent_interactions (fst (snd (record_feedback now c rating uid (eng, dsk)))) =
          (recent_interactions eng)
            [k := (recent_interactions eng ! k)
                    \<lparr>feedback_score := Some rating, success := Some (3 \<le> rating)\<rparr>])"
proof -
  have 1: "success (new_interaction t0 hour cmd chosen res u0) = None"
    "feedback_score (new_interaction t0 hour cmd chosen res u0) = None"
    by (simp_all add: new_interaction_def)
  have 2: "recent_interactions (fst (log_interaction t0 hour cmd chosen res u0 (eng, dsk))) =
       (if length (recent_interactions eng) < 1000 then recent_interactions eng
        else tl (recent_interactions eng)) @ [new_interaction t0 hour cmd chosen res u0]"
    by (simp add: log_interaction_def deque_append_def Let_def)
  have "snd (get_enhanced_intent eng hour rnd pick base cmd) = eng"
    using rl_prediction_engine [of eng "get_state_features hour cmd None" rnd pick "fst base" "snd base"]
    by (cases base) (auto simp: get_enhanced_intent_def split: prod.splits)
  then have 3: "recent_interactions (snd (get_enhanced_intent eng hour rnd pick base cmd))
       = recent_interactions eng"
    by simp
  have 4: "recent_interactions (load_model eng dsk) = recent_interactions eng"
    by (simp add: load_model_def split: option.splits)
  have 5: "recent_interactions (load_feedback_history eng dsk) = recent_interactions eng"
    by (rule recent_after_load_feedback_history)
  have 6: "recent_interactions (fst (snd (record_feedback now c rating uid (eng, dsk))))
          = recent_interactions eng"
    if "\<not> (1 \<le> rating \<and> rating \<le> 5) \<or> find_target (recent_interactions eng) c = None"
    using that by (cases "1 \<le> rating \<and> rating \<le> 5")
      (auto simp: record_feedback_invalid record_feedback_not_found)
  have 7: "recent_interactions (fst (snd (record_feedback now c rating uid (eng, dsk)))) =
          (recent_interactions eng)
            [k := (recent_interactions eng ! k)
                    \<lparr>feedback_score := Some rating, success := Some (3 \<le> rating)\<rparr>]"
    if "1 \<le> rating \<and> rating \<le> 5 \<and> find_target (recent_interactions eng) c = Some k"
    using that recent_after_feedback [of rating eng c k now uid dsk] by (simp add: rated_def)
  show ?thesis using 1 2 3 4 5 6 7 by blast
qed

theorem feedback_fields_written_by_feedback_only_witness:
  "find_target
         (recent_interactions
            ((new_engine (1 / 10) (1 / 10))
               \<lparr>recent_interactions :=
                  [rated 5 (new_interaction ''t0'' 10 ''open notes'' ''launch_app'' ''ok'' ''default'')]\<rparr>))
         ''open notes'' = Some 0
   \<and> recent_interactions (fst (snd
         (record_feedback ''t2'' ''open notes'' 1 ''default''
            ((new_engine (1 / 10) (1 / 10))
               \<lparr>recent_interactions :=
                  [rated 5 (new_interaction ''t0'' 10 ''open notes'' ''launch_app'' ''ok'' ''default'')]\<rparr>,
             empty_disk))))
       = [rated 1 (new_interaction ''t0'' 10 ''open notes'' ''launch_app'' ''ok'' ''default'')]
   \<and> recent_interactions (fst (snd
         (record_feedback ''t2'' ''open notes'' 0 ''default''
            ((new_engine (1 / 10) (1 / 10))
               \<lparr>recent_interactions :=
                  [rated 5 (new_interaction ''t0'' 10 ''open notes'' ''launch_app'' ''ok'' ''default'')]\<rparr>,
             empty_disk))))
       = [rated 5 (new_interaction ''t0'' 10 ''open notes'' ''launch_app'' ''ok'' ''default'')]"
proof -
  let ?it = "new_interaction ''t0'' 10 ''open notes'' ''launch_app'' ''ok'' ''default''"
  let ?e = "(new_engine (1 / 10) (1 / 10))\<lparr>recent_interactions := [rated 5 ?it]\<rparr>"
  have f: "find_target (recent_interactions ?e) ''open notes'' = Some 0"
    by (simp add: find_target_def matches_def rated_def new_interaction_def)
  have a: "recent_interactions (fst (snd (record_feedback ''t2'' ''open notes'' 1 ''default'' (?e, empty_disk))))
          = [rated 1 ?it]"
    using feedback_fields_written_by_feedback_only
            [where rating = 1 and eng = ?e and c = "''open notes''" and k = 0 and now = "''t2''"
               and uid = "''default''" and dsk = empty_disk] f
    by (simp add: rated_def)
  have b: "recent_interactions (fst (snd (record_feedback ''t2'' ''open notes'' 0 ''default'' (?e, empty_disk))))
          = [rated 5 ?it]"
    using feedback_fields_written_by_feedback_only
            [where rating = 0 and eng = ?e and c = "''open notes''" and now = "''t2''"
               and uid = "''default''" and dsk = empty_disk]
    by simp
  show ?thesis using f a b by blast
qed


subsection \<open>Saving and loading the model\<close>

text \<open>
  The loops of \<^verbatim>\<open>load_model\<close> replay the saved dictionaries item by item. On dictionaries
  (each key once) the one-level loop rebuilds its input, and the two-level loop rebuilds
  the table without the states that had no action: the inner loop body never runs for
  them, so the state is never inserted.
\<close>

lemma map_of_None_iff_keys: "map_of d k = None \<longleftrightarrow> k \<notin> fst ` set d"
  by (simp add: map_of_eq_None_iff)

lemma fold_update_append:
  "distinct (map fst xs) \<Longrightarrow> fst ` set xs \<inter> fst ` set acc = {} \<Longrightarrow>
     fold (\<lambda>(k, v) d. AList.update k v d) xs acc = acc @ xs"
proof (induction xs arbitrary: acc)
  case Nil
  show ?case by simp
next
  case (Cons x xs)
  obtain k v where x: "x = (k, v)" by (cases x)
  from Cons.prems have absent: "map_of acc k = None"
    by (auto simp: x map_of_None_iff_keys)
  have step: "AList.update k v acc = acc @ [(k, v)]"
    using absent by (rule update_snoc_absent)
  have "fold (\<lambda>(k, v) d. AList.update k v d) xs (acc @ [(k, v)]) = (acc @ [(k, v)]) @ xs"
    using Cons.prems by (intro Cons.IH) (auto simp: x)
  then show ?case by (simp add: x step)
qed

lemma load_dict_id: "dict_ok d \<Longrightarrow> load_dict d = d"
  using fold_update_append [of d "[]"] by (simp add: load_dict_def dict_ok_def)

lemma load_actions_known:
  "distinct (map fst actions) \<Longrightarrow> map_of t s = Some pre \<Longrightarrow>
   fst ` set actions \<inter> fst ` set pre = {} \<Longrightarrow>
     load_actions s actions t = AList.update s (pre @ actions) t"
proof (induction actions arbitrary: pre t)
  case Nil
  then show ?case by (simp add: load_actions_def AList.update_triv)
next
  case (Cons x actions)
  obtain a v where x: "x = (a, v)" by (cases x)
  from Cons.prems have absent: "map_of pre a = None"
    by (auto simp: x map_of_None_iff_keys)
  let ?t1 = "AList.update s (pre @ [(a, v)]) t"
  have step: "dd2_set t s a v = ?t1"
    using Cons.prems(2) absent by (simp add: dd2_set_eq update_snoc_absent)
  have known: "map_of ?t1 s = Some (pre @ [(a, v)])"
    by (simp add: AList.update_conv')
  have "load_actions s actions ?t1 = AList.update s ((pre @ [(a, v)]) @ actions) ?t1"
    using Cons.prems by (intro Cons.IH [OF _ known]) (auto simp: x)
  then show ?case by (simp add: x load_actions_def step)
qed

lemma load_actions_new:
  assumes "distinct (map fst actions)" and "map_of t s = None"
  shows "load_actions s actions t = (if actions = [] then t else t @ [(s, actions)])"
proof (cases actions)
  case Nil
  then show ?thesis by (simp add: load_actions_def)
next
  case (Cons x rest)
  obtain a v where x: "x = (a, v)" by (cases x)
  let ?t1 = "t @ [(s, [(a, v)])]"
  have step: "dd2_set t s a v = ?t1"
    using assms(2) by (simp add: dd2_set_eq update_snoc_absent)
  have known: "map_of ?t1 s = Some [(a, v)]"
    using assms(2) by (simp add: map_add_def)
  have "load_actions s rest ?t1 = AList.update s ([(a, v)] @ rest) ?t1"
    using assms(1) by (intro load_actions_known [OF _ known]) (auto simp: Cons x)
  also have "\<dots> = t @ [(s, (a, v) # rest)]"
    using assms(2) by (simp add: update_over_snoc)
  finally show ?thesis by (simp add: Cons x load_actions_def step)
qed

lemma fold_load_actions:
  "distinct (map fst saved) \<Longrightarrow> list_all (\<lambda>(s, inner). dict_ok inner) saved \<Longrightarrow>
   fst ` set saved \<inter> fst ` set acc = {} \<Longrightarrow>
     fold (\<lambda>(s, actions) t. load_actions s actions t) saved acc = acc @ non_empty_rows saved"
proof (induction saved arbitrary: acc)
  case Nil
  show ?case by (simp add: non_empty_rows_def)
next
  case (Cons x saved)
  obtain s actions where x: "x = (s, actions)" by (cases x)
  from Cons.prems have absent: "map_of acc s = None"
    by (auto simp: x map_of_None_iff_keys)
  from Cons.prems have d: "distinct (map fst actions)"
    by (simp add: x dict_ok_def)
  let ?acc1 = "if actions = [] then acc else acc @ [(s, actions)]"
  have step: "load_actions s actions acc = ?acc1"
    using d absent by (rule load_actions_new)
  have "fold (\<lambda>(s, actions) t. load_actions s actions t) saved ?acc1 = ?acc1 @ non_empty_rows saved"
    using Cons.prems by (intro Cons.IH) (auto simp: x)
  then show ?case by (simp add: x step non_empty_rows_def)
qed

lemma load_table_eq: "table_ok t \<Longrightarrow> load_table t = non_empty_rows t"
  using fold_load_actions [of t "[]"] by (simp add: load_table_def table_ok_def dict_ok_def)

lemma map_of_filter_absent: "k \<notin> fst ` set d \<Longrightarrow> map_of (filter P d) k = None"
  by (induction d) auto

lemma peek2_non_empty_rows:
  "distinct (map fst t) \<Longrightarrow> peek2 dflt (non_empty_rows t) s a = peek2 dflt t s a"
proof (induction t)
  case Nil
  show ?case by (simp add: non_empty_rows_def)
next
  case (Cons x t)
  obtain s0 inner where x: "x = (s0, inner)" by (cases x)
  from Cons.prems have k: "s0 \<notin> fst ` set t" and d: "distinct (map fst t)"
    by (auto simp: x)
  have ih: "peek2 dflt (non_empty_rows t) s a = peek2 dflt t s a"
    using d by (rule Cons.IH)
  show ?case
  proof (cases "s = s0")
    case True
    have "map_of (filter (\<lambda>(s, inner). inner \<noteq> []) t) s0 = None"
      using k by (rule map_of_filter_absent)
    then show ?thesis by (simp add: x True non_empty_rows_def peek2_def)
  next
    case False
    with ih show ?thesis by (simp add: x non_empty_rows_def peek2_def)
  qed
qed

lemma non_empty_rows_id: "list_all (\<lambda>(s, inner). inner \<noteq> []) t \<Longrightarrow> non_empty_rows t = t"
  by (induction t) (auto simp: non_empty_rows_def)


lemma load_model_after_save:
  "load_model eng0 (save_model eng dsk) =
     eng0\<lparr>q_table := load_table (q_table eng),
          state_action_counts := load_table (state_action_counts eng),
          intent_success_rates := load_dict (intent_success_rates eng),
          user_preferences := load_dict (user_preferences eng),
          learning_rate := learning_rate eng,
          epsilon := epsilon eng\<rparr>"
  by (simp add: load_model_def save_model_def)

lemma update_q_value_depends:
  assumes "\<And>s a. peek2 0 (q_table e1) s a = peek2 0 (q_table e2) s a"
    and "\<And>s a. peek2 0 (state_action_counts e1) s a = peek2 0 (state_action_counts e2) s a"
    and "intent_success_rates e1 = intent_success_rates e2"
    and "learning_rate e1 = learning_rate e2"
  shows "peek2 0 (q_table (update_q_value e1 it)) s a = peek2 0 (q_table (update_q_value e2 it)) s a"
    and "peek2 0 (state_action_counts (update_q_value e1 it)) s a
           = peek2 0 (state_action_counts (update_q_value e2 it)) s a"
  by (simp_all add: q_value_update_q_value count_update_q_value calculate_reward_value assms)

text \<open>
  C5. Loading what \<^verbatim>\<open>save_model\<close> wrote, into any engine, gives back the value store and
  the visit counters: every (state, action) reads the same value and the same count, with
  the defaults \<open>0.0\<close> and \<open>0\<close> on unseen keys; as lists the tables are the saved ones
  without states that have no action (the code never creates such a state, see
  \<open>reachable_round_trip_exact\<close> at the end). Histories, preferences, learning rate and exploration rate come
  back identical, and a later update computes the same values and counts as it would
  have without the save and load.
\<close>

theorem save_load_round_trip:
  fixes eng eng0 :: engine and dsk :: disk
  defines "loaded \<equiv> load_model eng0 (save_model eng dsk)"
  assumes "engine_ok eng"
  shows
    "(\<forall>s a. peek2 0 (q_table loaded) s a = peek2 0 (q_table eng) s a)
     \<and> (\<forall>s a. peek2 0 (state_action_counts loaded) s a = peek2 0 (state_action_counts eng) s a)
     \<and> q_table loaded = non_empty_rows (q_table eng)
     \<and> state_action_counts loaded = non_empty_rows (state_action_counts eng)
     \<and> intent_success_rates loaded = intent_success_rates eng
     \<and> user_preferences loaded = user_preferences eng
     \<and> learning_rate loaded = learning_rate eng
     \<and> epsilon loaded = epsilon eng
     \<and> (\<forall>it s a.
           peek2 0 (q_table (update_q_value loaded it)) s a
             = peek2 0 (q_table (update_q_value eng it)) s a
           \<and> peek2 0 (state_action_counts (update_q_value loaded it)) s a
             = peek2 0 (state_action_counts (update_q_value eng it)) s a)"
proof -
  from assms(2) have ok: "table_ok (q_table eng)" "table_ok (state_action_counts eng)"
    "dict_ok (intent_success_rates eng)" "dict_ok (user_preferences eng)"
    by (simp_all add: engine_ok_def table_ok_def)
  have q: "q_table loaded = non_empty_rows (q_table eng)"
    by (simp add: loaded_def load_model_after_save load_table_eq ok)
  have c: "state_action_counts loaded = non_empty_rows (state_action_counts eng)"
    by (simp add: loaded_def load_model_after_save load_table_eq ok)
  have h: "intent_success_rates loaded = intent_success_rates eng"
    by (simp add: loaded_def load_model_after_save load_dict_id ok)
  have u: "user_preferences loaded = user_preferences eng"
    by (simp add: loaded_def load_model_after_save load_dict_id ok)
  have p: "learning_rate loaded = learning_rate eng" "epsilon loaded = epsilon eng"
    by (simp_all add: loaded_def load_model_after_save)
  have qv: "peek2 0 (q_table loaded) s a = peek2 0 (q_table eng) s a" for s a
    using ok(1) by (simp add: q peek2_non_empty_rows table_ok_def dict_ok_def)
  have cv: "peek2 0 (state_action_counts loaded) s a = peek2 0 (state_action_counts eng) s a" for s a
    using ok(2) by (simp add: c peek2_non_empty_rows table_ok_def dict_ok_def)
  have later: "peek2 0 (q_table (update_q_value loaded it)) s a
             = peek2 0 (q_table (update_q_value eng it)) s a
           \<and> peek2 0 (state_action_counts (update_q_value loaded it)) s a
             = peek2 0 (state_action_counts (update_q_value eng it)) s a" for it s a
    using update_q_value_depends [of loaded eng it s a, OF qv cv h p(1)] by simp
  show ?thesis using q c h u p qv cv later by blast
qed

theorem save_load_round_trip_witness:
  "engine_ok
     ((new_engine (1 / 10) (2 / 10))
        \<lparr>q_table := [(''s1'', [(''a'', 1 / 10), (''b'', - (2 / 10))]),
                     (''s2'', [(''b'', 3 / 10), (''c'', 0)]),
                     (''s3'', [(''a'', - 1), (''c'', 1)])],
         state_action_counts := [(''s1'', [(''a'', 1), (''b'', 2)]),
                                 (''s2'', [(''b'', 3), (''c'', 0)]),
                                 (''s3'', [(''a'', 7), (''c'', 1)])],
         intent_success_rates := [(''a'', [True, False]), (''b'', [False])],
         user_preferences := [(''u'', [(''a'', [5, 2])])]\<rparr>)
   \<and> q_table (load_model (new_engine (5 / 10) (3 / 10))
        (save_model
           ((new_engine (1 / 10) (2 / 10))
              \<lparr>q_table := [(''s1'', [(''a'', 1 / 10), (''b'', - (2 / 10))]),
                           (''s2'', [(''b'', 3 / 10), (''c'', 0)]),
                           (''s3'', [(''a'', - 1), (''c'', 1)])],
               state_action_counts := [(''s1'', [(''a'', 1), (''b'', 2)]),
                                       (''s2'', [(''b'', 3), (''c'', 0)]),
                                       (''s3'', [(''a'', 7), (''c'', 1)])],
               intent_success_rates := [(''a'', [True, False]), (''b'', [False])],
               user_preferences := [(''u'', [(''a'', [5, 2])])]\<rparr>)
           empty_disk))
     = [(''s1'', [(''a'', 1 / 10), (''b'', - (2 / 10))]),
        (''s2'', [(''b'', 3 / 10), (''c'', 0)]),
        (''s3'', [(''a'', - 1), (''c'', 1)])]
   \<and> state_action_counts (load_model (new_engine (5 / 10) (3 / 10))
        (save_model
           ((new_engine (1 / 10) (2 / 10))
              \<lparr>q_table := [(''s1'', [(''a'', 1 / 10), (''b'', - (2 / 10))]),
                           (''s2'', [(''b'', 3 / 10), (''c'', 0)]),
                           (''s3'', [(''a'', - 1), (''c'', 1)])],
               state_action_counts := [(''s1'', [(''a'', 1), (''b'', 2)]),
                                       (''s2'', [(''b'', 3), (''c'', 0)]),
                                       (''s3'', [(''a'', 7), (''c'', 1)])],
               intent_success_rates := [(''a'', [True, False]), (''b'', [False])],
               user_preferences := [(''u'', [(''a'', [5, 2])])]\<rparr>)
           empty_disk))
     = [(''s1'', [(''a'', 1), (''b'', 2)]),
        (''s2'', [(''b'', 3), (''c'', 0)]),
        (''s3'', [(''a'', 7), (''c'', 1)])]"
proof -
  let ?e = "(new_engine (1 / 10) (2 / 10))
        \<lparr>q_table := [(''s1'', [(''a'', 1 / 10), (''b'', - (2 / 10))]),
                     (''s2'', [(''b'', 3 / 10), (''c'', 0)]),
                     (''s3'', [(''a'', - 1), (''c'', 1)])],
         state_action_counts := [(''s1'', [(''a'', 1), (''b'', 2)]),
                                 (''s2'', [(''b'', 3), (''c'', 0)]),
                                 (''s3'', [(''a'', 7), (''c'', 1)])],
         intent_success_rates := [(''a'', [True, False]), (''b'', [False])],
         user_preferences := [(''u'', [(''a'', [5, 2])])]\<rparr>"
  have ok: "engine_ok ?e"
    by (simp add: engine_ok_def table_ok_def dict_ok_def new_engine_def)
  show ?thesis
    using save_load_round_trip [OF ok, of "new_engine (5 / 10) (3 / 10)" empty_disk] ok
    by (simp add: non_empty_rows_def new_engine_def)
qed


subsection \<open>Reachable states\<close>

text \<open>
  The modelled methods keep the dictionaries well-formed and never leave a state without
  an action in the value store or the counters, so on every reachable state saving and
  loading restores both tables item for item, in the same order.
\<close>

lemma list_all_update:
  "list_all P d \<Longrightarrow> P (k, v) \<Longrightarrow> list_all P (AList.update k v d)"
  by (induction d) auto

lemma dict_ok_update: "dict_ok d \<Longrightarrow> dict_ok (AList.update k v d)"
  by (simp add: dict_ok_def AList.distinct_update)

lemma inner_of_table_ok:
  "table_ok t \<Longrightarrow> dict_ok (case map_of t s of None \<Rightarrow> [] | Some inner \<Rightarrow> inner)"
  by (auto simp: table_ok_def dict_ok_def list_all_iff split: option.splits dest!: map_of_SomeD)

lemma table_ok_update: "table_ok t \<Longrightarrow> dict_ok inner \<Longrightarrow> table_ok (AList.update s inner t)"
  by (simp add: table_ok_def dict_ok_update list_all_update)

lemma table_ok_dd2_set: "table_ok t \<Longrightarrow> table_ok (dd2_set t s a v)"
  by (simp add: dd2_set_eq table_ok_update dict_ok_update inner_of_table_ok)

lemma rows_filled_dd2_set: "rows_filled t \<Longrightarrow> rows_filled (dd2_set t s a v)"
  by (simp add: dd2_set_eq rows_filled_def list_all_update)

lemma snd_dd2_get_eq:
  "snd (dd2_get dflt t s a) =
     (case map_of (case map_of t s of None \<Rightarrow> [] | Some inner \<Rightarrow> inner) a of
        Some v \<Rightarrow> t
      | None \<Rightarrow> dd2_set t s a dflt)"
proof (cases "map_of t s")
  case None
  then show ?thesis by (simp add: dd2_get_fresh_state dd2_set_eq update_snoc_absent)
next
  case (Some inner)
  then show ?thesis
    by (cases "map_of inner a")
       (simp_all add: dd2_get_fresh_action dd2_get_present dd2_set_eq update_snoc_absent)
qed

lemma table_ok_dd2_get: "table_ok t \<Longrightarrow> table_ok (snd (dd2_get dflt t s a))"
  by (simp add: snd_dd2_get_eq table_ok_dd2_set split: option.splits)

lemma rows_filled_dd2_get: "rows_filled t \<Longrightarrow> rows_filled (snd (dd2_get dflt t s a))"
  by (simp add: snd_dd2_get_eq rows_filled_dd2_set split: option.splits)

lemma store_ok_q_update: "store_ok e \<Longrightarrow> store_ok (q_update e s a r)"
  by (simp add: store_ok_def engine_ok_def q_update_def Let_def split: prod.splits)
     (metis table_ok_dd2_set table_ok_dd2_get rows_filled_dd2_set rows_filled_dd2_get snd_conv)

lemma store_ok_calculate_reward: "store_ok e \<Longrightarrow> store_ok (snd (calculate_reward e it))"
  by (simp add: calculate_reward_engine store_ok_def engine_ok_def table_ok_dd2_get rows_filled_dd2_get)

lemma store_ok_update_q_value: "store_ok e \<Longrightarrow> store_ok (update_q_value e it)"
  by (simp add: update_q_value_eq store_ok_q_update store_ok_calculate_reward)

lemma dict_ok_append_success: "dict_ok d \<Longrightarrow> dict_ok (append_success d i b)"
  by (cases "map_of d i")
     (simp_all add: append_success_def dd_get_def update_over_snoc dict_ok_update,
      simp add: dict_ok_def map_of_None_iff_keys)

lemma table_ok_add_preference: "table_ok up \<Longrightarrow> table_ok (add_preference up u i rating)"
proof (cases "map_of up u")
  case None
  assume ok: "table_ok up"
  from None have "table_ok (up @ [(u, [])])"
    using ok by (simp add: table_ok_def dict_ok_def map_of_None_iff_keys)
  with None show ?thesis by (simp add: add_preference_def dd_get_def table_ok_dd2_set)
next
  case (Some prefs)
  assume "table_ok up"
  with Some show ?thesis by (simp add: add_preference_def dd_get_def table_ok_dd2_set)
qed


lemma store_ok_fields:
  "q_table e' = q_table e \<Longrightarrow> state_action_counts e' = state_action_counts e \<Longrightarrow>
   intent_success_rates e' = intent_success_rates e \<Longrightarrow> user_preferences e' = user_preferences e \<Longrightarrow>
     store_ok e' = store_ok e"
  by (simp add: store_ok_def engine_ok_def)

lemma store_ok_record_feedback:
  assumes "store_ok eng"
  shows "store_ok (fst (snd (record_feedback now c rating uid (eng, dsk))))"
proof (cases "1 \<le> rating \<and> rating \<le> 5")
  case False
  then show ?thesis using assms by (simp add: record_feedback_invalid)
next
  case valid: True
  show ?thesis
  proof (cases "find_target (recent_interactions eng) c")
    case None
    then show ?thesis using assms valid by (simp add: record_feedback_not_found)
  next
    case (Some k)
    let ?target = "rated rating (recent_interactions eng ! k)"
    let ?e1 = "eng\<lparr>recent_interactions := (recent_interactions eng)[k := ?target]\<rparr>"
    let ?e2 = "update_q_value ?e1 ?target"
    have "store_ok ?e1" using assms store_ok_fields [of ?e1 eng] by simp
    then have 2: "store_ok ?e2" by (rule store_ok_update_q_value)
    have f: "intent_success_rates ?e2 = intent_success_rates eng"
      "user_preferences ?e2 = user_preferences eng"
      by (simp_all add: update_q_value_frame)
    from assms have "dict_ok (intent_success_rates eng)" "table_ok (user_preferences eng)"
      by (simp_all add: store_ok_def engine_ok_def)
    then have "dict_ok (append_success (intent_success_rates eng) (intent (recent_interactions eng ! k)) (3 \<le> rating))"
      and "table_ok (add_preference (user_preferences eng) uid (intent (recent_interactions eng ! k)) rating)"
      by (simp_all add: dict_ok_append_success table_ok_add_preference)
    with 2 show ?thesis
      using valid Some by (simp add: record_feedback_recorded store_ok_def engine_ok_def)
  qed
qed

lemma model_file_record_feedback:
  "model_file (snd (snd (record_feedback now c rating uid (eng, dsk)))) = model_file dsk"
  by (simp add: record_feedback_def save_feedback_def Let_def split: option.splits)

lemma table_ok_non_empty_rows: "table_ok t \<Longrightarrow> table_ok (non_empty_rows t)"
  by (simp add: table_ok_def dict_ok_def non_empty_rows_def distinct_map_filter list_all_iff)

lemma rows_filled_non_empty_rows: "rows_filled (non_empty_rows t)"
  by (auto simp: rows_filled_def non_empty_rows_def list_all_iff)

lemma store_ok_load_model:
  assumes "store_ok eng" and "disk_ok dsk"
  shows "store_ok (load_model eng dsk)"
proof (cases "model_file dsk")
  case None
  with assms show ?thesis by (simp add: load_model_def)
next
  case (Some md)
  with assms(2) have ok: "table_ok (md_q_table md)" "table_ok (md_state_action_counts md)"
    "dict_ok (md_intent_success_rates md)" "table_ok (md_user_preferences md)"
    by (simp_all add: disk_ok_def)
  from ok(4) have "dict_ok (md_user_preferences md)" by (simp add: table_ok_def)
  with ok show ?thesis
    by (simp add: load_model_def Some store_ok_def engine_ok_def load_table_eq load_dict_id
          table_ok_non_empty_rows rows_filled_non_empty_rows)
qed

lemma disk_ok_save_model: "store_ok eng \<Longrightarrow> disk_ok (save_model eng dsk)"
  by (simp add: disk_ok_def save_model_def store_ok_def engine_ok_def)

lemma store_ok_new_engine: "store_ok (new_engine lr eps)"
  by (simp add: store_ok_def engine_ok_def table_ok_def dict_ok_def rows_filled_def new_engine_def)

lemma remember_preference_eq: "remember_preference up u i rating = add_preference up u i rating"
proof (cases "map_of up u")
  case None
  then show ?thesis
    by (simp add: remember_preference_def add_preference_def dd_get_def dd2_set_eq peek2_def
          update_snoc_absent update_over_snoc map_add_def Let_def)
next
  case (Some prefs)
  then show ?thesis
    by (cases "map_of prefs i")
       (simp_all add: remember_preference_def add_preference_def dd_get_def dd2_set_eq peek2_def
          update_snoc_absent update_over_snoc AList.update_conv' map_add_def Let_def)
qed

lemma store_ok_load_feedback_history:
  assumes "store_ok eng"
  shows "store_ok (load_feedback_history eng dsk)"
proof -
  have "store_ok e \<Longrightarrow>
        store_ok (fold (\<lambda>fb e.
                  e\<lparr>intent_success_rates :=
                       append_success (intent_success_rates e) (fb_intent fb) (fb_rating fb \<ge> 3),
                    user_preferences :=
                       remember_preference (user_preferences e) (fb_user_id fb) (fb_intent fb)
                         (fb_rating fb)\<rparr>)
               fbs e)" for fbs :: "feedback_entry list" and e
  proof (induction fbs arbitrary: e)
    case Nil
    then show ?case by simp
  next
    case (Cons fb fbs)
    from Cons.prems show ?case
      by (simp, intro Cons.IH)
         (simp add: store_ok_def engine_ok_def dict_ok_append_success remember_preference_eq
            table_ok_add_preference)
  qed
  with assms show ?thesis by (simp add: load_feedback_history_def split: option.splits)
qed

lemma store_ok_init_engine: "disk_ok dsk \<Longrightarrow> store_ok (init_engine lr eps dsk)"
  by (simp add: init_engine_def store_ok_load_model store_ok_load_feedback_history store_ok_new_engine)

lemma reachable_ok: "reachable st \<Longrightarrow> store_ok (fst st) \<and> disk_ok (snd st)"
proof (induction rule: reachable.induct)
  case (start lr eps)
  show ?case by (simp add: store_ok_init_engine disk_ok_def empty_disk_def)
next
  case (decide eng dsk hour rnd pick base cmd)
  then show ?case using rl_prediction_engine by (simp add: get_enhanced_intent_def split: prod.splits) (metis snd_conv)
next
  case (log st now hour cmd chosen res uid)
  obtain eng dsk where st: "st = (eng, dsk)" by (cases st)
  have "store_ok (fst (log_interaction now hour cmd chosen res uid st)) = store_ok eng"
    by (intro store_ok_fields) (simp_all add: st log_interaction_def Let_def)
  moreover have "disk_ok (snd (log_interaction now hour cmd chosen res uid st)) = disk_ok dsk"
    by (simp add: st log_interaction_def Let_def disk_ok_def)
  ultimately show ?case using log.IH by (simp add: st)
next
  case (feedback st now c rating uid)
  obtain eng dsk where st: "st = (eng, dsk)" by (cases st)
  have "disk_ok (snd (snd (record_feedback now c rating uid (eng, dsk)))) = disk_ok dsk"
    by (simp add: disk_ok_def model_file_record_feedback)
  then show ?case
    using feedback.IH store_ok_record_feedback [of eng now c rating uid dsk] by (simp add: st)
next
  case (save eng dsk)
  then show ?case by (simp add: disk_ok_save_model)
next
  case (load eng dsk)
  then show ?case by (simp add: store_ok_load_model)
next
  case (restart eng dsk lr eps)
  then show ?case by (simp add: store_ok_init_engine)
qed

lemma reachable_round_trip_exact:
  assumes "reachable (eng, dsk)"
  shows "q_table (load_model eng0 (save_model eng dsk)) = q_table eng
     \<and> state_action_counts (load_model eng0 (save_model eng dsk)) = state_action_counts eng"
proof -
  from reachable_ok [OF assms] have ok: "store_ok eng" by simp
  then have "table_ok (q_table eng)" "table_ok (state_action_counts eng)"
    "non_empty_rows (q_table eng) = q_table eng"
    "non_empty_rows (state_action_counts eng) = state_action_counts eng"
    by (simp_all add: store_ok_def engine_ok_def rows_filled_def non_empty_rows_id)
  then show ?thesis by (simp add: load_model_after_save load_table_eq)
qed


end
